theory Spec2Isabelle
  imports Complex_Main "HOL-Library.AList"
begin

section \<open>Data model of \<open>security_auditor.py\<close>\<close>

text \<open>
  Conventions of the embedding.
  \<^item> A Python \<open>float\<close> is modelled by a \<open>real\<close>, and float arithmetic by exact arithmetic.
    The scores the auditor stores are 0.0, 50.0 and 100.0, and sums of those are exact in double
    precision for any store that fits in memory; the division of an average and the quotient,
    product and difference of \<open>interpret_response\<close> are rounded to a double by the source and
    exact here. The values the properties below name (0, 25, 50, 100, 200) are doubles that the
    source computes without rounding.
  \<^item> A Python \<open>str\<close> is modelled by a \<open>string\<close>; a \<open>char\<close> stands for a code point below 256.
  \<^item> A Python \<open>dict\<close> is an association list in insertion order, read with \<open>map_of\<close> and
    written with \<open>AList.update\<close>, which overwrites in place or appends, as \<open>d[k] = v\<close> does.
  \<^item> The field \<open>notes\<close> of \<open>ControlAssessment\<close> is named \<open>assessment_notes\<close> (\<open>notes\<close> is reserved).
  \<^item> A raised exception is the \<open>Inl\<close> branch of a sum.
  \<^item> A method whose name starts with an underscore is named without it.
\<close>

datatype ComplianceStatus = COMPLIANT | PARTIAL | NON_COMPLIANT | NOT_APPLICABLE | NOT_ASSESSED

datatype Priority = CRITICAL | HIGH | MEDIUM | LOW | INFO

datatype error = ValueError string | KeyError string | ZeroDivisionError

record SystemScope =
  system_name :: string
  primary_function :: string
  data_types :: "string list"
  architecture :: string
  deployment_environment :: string
  compliance_requirements :: "string list"
  user_base :: string
  criticality :: string
  additional_context :: string

text \<open>
  An entry of \<open>self.controls\<close>: the dictionary written by \<open>CCFControl.to_dict\<close>. The auditor reads
  the keys \<open>'ccf_id'\<close>, \<open>'domain'\<close> and \<open>'name'\<close> only.
\<close>

record Control =
  ctl_ccf_id :: string
  ctl_domain :: string
  ctl_name :: string
  ctl_description :: string

record ControlAssessment =
  ccf_id :: string
  domain :: string
  control_name :: string
  status :: ComplianceStatus
  evidence :: string
  gaps :: "string list"
  assessment_notes :: string
  score :: real

record Finding =
  finding_id :: string
  title :: string
  description :: string
  affected_controls :: "string list"
  priority :: Priority
  recommendation :: string
  risk_impact :: string
  remediation_effort :: string

text \<open>
  \<open>self.findings\<close> is a mutable list object that \<open>add_finding\<close> appends to in place and that
  \<open>generate_report\<close> hands out by reference, so list objects of findings live in a heap and the
  auditor holds an address. \<open>self.assessments\<close> is a dictionary owned by the auditor alone:
  nothing else ever holds a reference to it, so it is a field by value.
\<close>

type_synonym addr = nat

type_synonym heap = "addr \<Rightarrow> Finding list"

record SecurityAuditor =
  controls :: "Control list"
  domains :: "(string \<times> string list) list"
  scope :: "SystemScope option"
  assessments :: "(string \<times> ControlAssessment) list"
  findings :: addr

section \<open>Assessment store and scoring\<close>

text \<open>\<open>SecurityAuditor.__init__\<close>, with the parsed catalog in place of the JSON file.\<close>

definition init_auditor :: "Control list \<Rightarrow> (string \<times> string list) list \<Rightarrow> SecurityAuditor" where
  "init_auditor cs ds =
     \<lparr>controls = cs, domains = ds, scope = None, assessments = [], findings = 0\<rparr>"

definition init_heap :: heap where
  "init_heap = (\<lambda>_. [])"

definition set_scope :: "SecurityAuditor \<Rightarrow> SystemScope \<Rightarrow> SecurityAuditor" where
  "set_scope self sc = self\<lparr>scope := Some sc\<rparr>"

primrec lookup_control :: "Control list \<Rightarrow> string \<Rightarrow> Control option" where
  "lookup_control [] cid = None"
| "lookup_control (c # cs) cid = (if ctl_ccf_id c = cid then Some c else lookup_control cs cid)"

definition get_control_by_id :: "SecurityAuditor \<Rightarrow> string \<Rightarrow> Control option" where
  "get_control_by_id self cid = lookup_control (controls self) cid"

text \<open>The local dictionary \<open>score_map\<close> of \<open>assess_control\<close>; \<open>None\<close> is Python's \<open>None\<close>.\<close>

fun score_map :: "ComplianceStatus \<Rightarrow> real option" where
  "score_map COMPLIANT = Some 100"
| "score_map PARTIAL = Some 50"
| "score_map NON_COMPLIANT = Some 0"
| "score_map NOT_APPLICABLE = None"
| "score_map NOT_ASSESSED = Some 0"

text \<open>
  \<open>assess_control\<close> returns its result together with the auditor after the call: the assessment
  and the updated auditor, or the exception raised and the auditor as the \<open>raise\<close> left it.
  A control of the catalog is a dictionary with keys, so \<open>not control\<close> holds for \<open>None\<close> only.
\<close>

definition assess_control ::
  "SecurityAuditor \<Rightarrow> string \<Rightarrow> ComplianceStatus \<Rightarrow> string \<Rightarrow> string list option \<Rightarrow> string
     \<Rightarrow> (error + ControlAssessment) \<times> SecurityAuditor" where
  "assess_control self cid st ev gp nt =
     (case get_control_by_id self cid of
        None \<Rightarrow> (Inl (ValueError (''Control '' @ cid @ '' not found'')), self)
      | Some control \<Rightarrow>
          let assessment =
            \<lparr>ccf_id = cid,
             domain = ctl_domain control,
             control_name = ctl_name control,
             status = st,
             evidence = ev,
             gaps = (case gp of None \<Rightarrow> [] | Some g \<Rightarrow> g),
             assessment_notes = nt,
             score = (case score_map st of Some v \<Rightarrow> v | None \<Rightarrow> 0)\<rparr>
          in (Inr assessment, self\<lparr>assessments := AList.update cid assessment (assessments self)\<rparr>))"

definition add_finding :: "heap \<Rightarrow> SecurityAuditor \<Rightarrow> Finding \<Rightarrow> heap" where
  "add_finding h self f = h(findings self := h (findings self) @ [f])"

text \<open>\<open>self.domains.get(domain, [])\<close>.\<close>

definition domain_control_ids :: "SecurityAuditor \<Rightarrow> string \<Rightarrow> string list" where
  "domain_control_ids self d = (case map_of (domains self) d of None \<Rightarrow> [] | Some ids \<Rightarrow> ids)"

text \<open>The comprehension of \<open>calculate_domain_score\<close>, one step per control identifier.\<close>

primrec assessed_in :: "(string \<times> ControlAssessment) list \<Rightarrow> string list \<Rightarrow> ControlAssessment list" where
  "assessed_in store [] = []"
| "assessed_in store (cid # cids) =
     (case map_of store cid of
        None \<Rightarrow> assessed_in store cids
      | Some a \<Rightarrow> if status a \<noteq> NOT_APPLICABLE then a # assessed_in store cids
                  else assessed_in store cids)"

definition average :: "ControlAssessment list \<Rightarrow> real" where
  "average assessed_controls =
     (if assessed_controls = [] then 0
      else sum_list (map score assessed_controls) / real (length assessed_controls))"

definition calculate_domain_score :: "SecurityAuditor \<Rightarrow> string \<Rightarrow> real" where
  "calculate_domain_score self d =
     average (assessed_in (assessments self) (domain_control_ids self d))"

definition calculate_overall_score :: "SecurityAuditor \<Rightarrow> real" where
  "calculate_overall_score self =
     average (filter (\<lambda>a. status a \<noteq> NOT_APPLICABLE) (map snd (assessments self)))"

section \<open>Audit sessions\<close>

text \<open>
  A session is a freshly constructed auditor followed by any sequence of calls to its mutating
  methods, as \<open>example_audit.py\<close>, \<open>ccf_auditor_cli.py\<close> and \<open>code_scanner.py\<close> drive it. A call
  of \<open>assess_control\<close> that raises leaves the session in the state the exception left.
\<close>

datatype call =
    AssessControl string ComplianceStatus string "string list option" string
  | AddFinding Finding
  | SetScope SystemScope

fun call_step :: "heap \<times> SecurityAuditor \<Rightarrow> call \<Rightarrow> heap \<times> SecurityAuditor" where
  "call_step (h, self) (AssessControl cid st ev gp nt) = (h, snd (assess_control self cid st ev gp nt))"
| "call_step (h, self) (AddFinding f) = (add_finding h self f, self)"
| "call_step (h, self) (SetScope sc) = (h, set_scope self sc)"

definition session ::
  "Control list \<Rightarrow> (string \<times> string list) list \<Rightarrow> call list \<Rightarrow> heap \<times> SecurityAuditor" where
  "session cs ds calls = foldl call_step (init_heap, init_auditor cs ds) calls"

section \<open>String helpers\<close>

definition NL :: string where
  "NL = [CHR 0x0A]"

text \<open>\<open>str(n)\<close> for a non-negative integer, as the f-strings render counts and indices.\<close>

fun str_nat :: "nat \<Rightarrow> string" where
  "str_nat n =
     (if n < 10 then [char_of (48 + n)] else str_nat (n div 10) @ [char_of (48 + n mod 10)])"

declare str_nat.simps [simp del]

text \<open>
  \<open>str.isspace\<close> on the code points below 256: tab to carriage return, the four separators
  0x1C to 0x1F, space, NEL and the no-break space.
\<close>

definition is_space :: "char \<Rightarrow> bool" where
  "is_space c = ((of_char c :: nat) \<in> set [9, 10, 11, 12, 13, 28, 29, 30, 31, 32, 133, 160])"

text \<open>\<open>str.strip()\<close>.\<close>

definition strip :: "string \<Rightarrow> string" where
  "strip s = rev (dropWhile is_space (rev (dropWhile is_space s)))"

text \<open>
  The float format \<open>:.1f\<close>: the decimal with one digit after the point that is nearest to the
  exact value, a tie going to the even digit, with a minus sign for a negative value.
\<close>

definition round_half_even :: "real \<Rightarrow> int" where
  "round_half_even y =
     (let f = \<lfloor>y\<rfloor>
      in if y - of_int f < 1 / 2 then f
         else if y - of_int f > 1 / 2 then f + 1
         else if even f then f else f + 1)"

definition fmt1f :: "real \<Rightarrow> string" where
  "fmt1f x =
     (let t = nat (round_half_even (\<bar>x\<bar> * 10))
      in (if x < 0 then ''-'' else []) @ str_nat (t div 10) @ ''.'' @ str_nat (t mod 10))"

section \<open>Report synthesis\<close>

record AuditReport =
  report_scope :: "SystemScope option"
  assessment_date :: string
  report_assessments :: "ControlAssessment list"
  report_findings :: addr
  overall_score :: real
  domain_scores :: "(string \<times> real) list"
  executive_summary :: string
  recommendations_summary :: string

text \<open>
  The fields \<open>scope\<close>, \<open>assessments\<close> and \<open>findings\<close> of \<open>AuditReport\<close> carry the prefix
  \<open>report_\<close>. \<open>report_findings\<close> is an address: the constructor receives \<open>self.findings\<close>
  itself. \<open>report_assessments\<close> is the fresh list \<open>list(self.assessments.values())\<close>, which
  no other object refers to.
\<close>

definition findings_of :: "heap \<Rightarrow> AuditReport \<Rightarrow> Finding list" where
  "findings_of h r = h (report_findings r)"

definition posture_of :: "real \<Rightarrow> string" where
  "posture_of s =
     (if s \<ge> 90 then ''Excellent''
      else if s \<ge> 75 then ''Good''
      else if s \<ge> 60 then ''Fair''
      else if s \<ge> 40 then ''Poor''
      else ''Critical'')"

text \<open>
  \<open>sorted\<close> is stable, as \<open>sort_key\<close> is; \<open>[:3]\<close> is \<open>take 3\<close>.
\<close>

definition weakest_domains :: "(string \<times> real) list \<Rightarrow> string list" where
  "weakest_domains ds =
     (let sorted_domains = sort_key snd ds
      in map fst (filter (\<lambda>d. snd d < 60) (take 3 sorted_domains)))"

definition count_priority :: "Priority \<Rightarrow> Finding list \<Rightarrow> nat" where
  "count_priority p fs = length (filter (\<lambda>f. priority f = p) fs)"

definition count_status :: "ComplianceStatus \<Rightarrow> (string \<times> ControlAssessment) list \<Rightarrow> nat" where
  "count_status st store = length (filter (\<lambda>a. status a = st) (map snd store))"

text \<open>
  The loop over \<open>weakest_domains\<close>; \<open>domain_scores[domain]\<close> raises \<open>KeyError\<close> on a missing key.
\<close>

fun render_weakest ::
  "(string \<times> real) list \<Rightarrow> string \<Rightarrow> string list \<Rightarrow> error + string" where
  "render_weakest ds summary [] = Inr summary"
| "render_weakest ds summary (d # rest) =
     (case map_of ds d of
        None \<Rightarrow> Inl (KeyError d)
      | Some v \<Rightarrow>
          render_weakest ds
            (summary @ ''- '' @ d @ '' (Score: '' @ fmt1f v @ ''/100)'' @ NL) rest)"

text \<open>The f-string that \<open>_generate_executive_summary\<close> assigns to \<open>summary\<close>.\<close>

definition summary_text :: "heap \<Rightarrow> SecurityAuditor \<Rightarrow> real \<Rightarrow> string" where
  "summary_text h self overall =
     (let posture = posture_of overall;
          fs = h (findings self);
          critical_findings = count_priority CRITICAL fs;
          high_findings = count_priority HIGH fs;
          medium_findings = count_priority MEDIUM fs
      in NL @ ''**Overall Security Posture: '' @ posture @ '' ('' @ fmt1f overall @ ''/100)**'' @ NL
         @ NL
         @ ''The security assessment of ''
         @ (case scope self of Some sc \<Rightarrow> system_name sc | None \<Rightarrow> ''the system'')
         @ '' has been completed'' @ NL
         @ ''based on the Adobe Common Controls Framework (CCF). The system achieved an overall security score'' @ NL
         @ ''of '' @ fmt1f overall @ '' out of 100.'' @ NL
         @ NL
         @ ''**Key Statistics:**'' @ NL
         @ ''- Total Controls Assessed: '' @ str_nat (length (assessments self)) @ NL
         @ ''- Compliant Controls: '' @ str_nat (count_status COMPLIANT (assessments self)) @ NL
         @ ''- Partially Compliant: '' @ str_nat (count_status PARTIAL (assessments self)) @ NL
         @ ''- Non-Compliant: '' @ str_nat (count_status NON_COMPLIANT (assessments self)) @ NL
         @ NL
         @ ''**Findings Summary:**'' @ NL
         @ ''- Critical Priority: '' @ str_nat critical_findings @ NL
         @ ''- High Priority: '' @ str_nat high_findings @ NL
         @ ''- Medium Priority: '' @ str_nat medium_findings @ NL)"

definition generate_executive_summary ::
  "heap \<Rightarrow> SecurityAuditor \<Rightarrow> real \<Rightarrow> (string \<times> real) list \<Rightarrow> error + string" where
  "generate_executive_summary h self overall ds =
     (let weakest = weakest_domains ds;
          summary = summary_text h self overall
      in map_sum id strip
           (if weakest = [] then Inr summary
            else render_weakest ds
                   (summary @ NL @ ''**Areas Requiring Immediate Attention:**'' @ NL) weakest))"

text \<open>
  The loops of \<open>_generate_recommendations_summary\<close>: \<open>enumerate(band, 1)\<close> with the running
  text. The first renders the title and the recommendation (the Critical, High and Medium
  bands share it), the second the title alone (the Low band).
\<close>

fun render_full :: "nat \<Rightarrow> Finding list \<Rightarrow> string \<Rightarrow> string" where
  "render_full i [] summary = summary"
| "render_full i (f # fs) summary =
     render_full (i + 1) fs
       (summary @ str_nat i @ ''. '' @ title f @ NL @ ''   - '' @ recommendation f @ NL @ NL)"

fun render_title_only :: "nat \<Rightarrow> Finding list \<Rightarrow> string \<Rightarrow> string" where
  "render_title_only i [] summary = summary"
| "render_title_only i (f # fs) summary =
     render_title_only (i + 1) fs (summary @ str_nat i @ ''. '' @ title f @ NL @ NL)"

definition recommendations_text :: "Finding list \<Rightarrow> string" where
  "recommendations_text fs =
     (let critical = filter (\<lambda>f. priority f = CRITICAL) fs;
          high = filter (\<lambda>f. priority f = HIGH) fs;
          medium = filter (\<lambda>f. priority f = MEDIUM) fs;
          low = filter (\<lambda>f. priority f = LOW) fs;
          summary = ''**Prioritized Recommendations:**'' @ NL @ NL;
          summary = (if critical = [] then summary
                     else render_full 1 critical
                            (summary @ ''**CRITICAL PRIORITY (Immediate Action Required):**'' @ NL));
          summary = (if high = [] then summary
                     else render_full 1 high
                            (summary @ ''**HIGH PRIORITY (Address within 30 days):**'' @ NL));
          summary = (if medium = [] then summary
                     else render_full 1 medium
                            (summary @ ''**MEDIUM PRIORITY (Address within 90 days):**'' @ NL));
          summary = (if low = [] then summary
                     else render_title_only 1 low
                            (summary @ ''**LOW PRIORITY (Address within 6 months):**'' @ NL))
      in summary)"

definition generate_recommendations_summary :: "heap \<Rightarrow> SecurityAuditor \<Rightarrow> string" where
  "generate_recommendations_summary h self = strip (recommendations_text (h (findings self)))"

text \<open>
  \<open>generate_report\<close>; \<open>now\<close> is the text of \<open>datetime.now().strftime(...)\<close>. The dictionary
  comprehension over \<open>self.domains.keys()\<close> has one entry per key, in key order.
\<close>

definition generate_report ::
  "string \<Rightarrow> heap \<Rightarrow> SecurityAuditor \<Rightarrow> error + AuditReport" where
  "generate_report now h self =
     (let overall = calculate_overall_score self;
          ds = map (\<lambda>d. (d, calculate_domain_score self d)) (map fst (domains self))
      in case generate_executive_summary h self overall ds of
           Inl e \<Rightarrow> Inl e
         | Inr summary \<Rightarrow>
             Inr \<lparr>report_scope = scope self,
                  assessment_date = now,
                  report_assessments = map snd (assessments self),
                  report_findings = findings self,
                  overall_score = overall,
                  domain_scores = ds,
                  executive_summary = summary,
                  recommendations_summary = generate_recommendations_summary h self\<rparr>)"

section \<open>Interpreting a response (\<open>questionnaire.py\<close>)\<close>

text \<open>
  \<open>str.lower()\<close> on the code points below 256: the ASCII capitals and the Latin-1 capitals
  0xC0 to 0xDE, the multiplication sign 0xD7 apart, move up by 32.
\<close>

definition lower_char :: "char \<Rightarrow> char" where
  "lower_char c =
     (let n = (of_char c :: nat)
      in if (65 \<le> n \<and> n \<le> 90) \<or> (192 \<le> n \<and> n \<le> 222 \<and> n \<noteq> 215) then char_of (n + 32) else c)"

definition lower :: "string \<Rightarrow> string" where
  "lower s = map lower_char s"

primrec starts_with :: "string \<Rightarrow> string \<Rightarrow> bool" where
  "starts_with [] p = (p = [])"
| "starts_with (c # cs) p = (case p of [] \<Rightarrow> True | q # qs \<Rightarrow> c = q \<and> starts_with cs qs)"

text \<open>\<open>needle in haystack\<close> on strings: \<open>str_in needle haystack\<close>.\<close>

primrec str_in :: "string \<Rightarrow> string \<Rightarrow> bool" where
  "str_in needle [] = (needle = [])"
| "str_in needle (c # cs) = (starts_with (c # cs) needle \<or> str_in needle cs)"

text \<open>
  The search loop: the index of the first option that contains the response or is contained
  in it, and \<open>-1\<close>, the initial value of \<open>option_index\<close>, when the loop ends without a
  \<open>break\<close>.
\<close>

primrec find_option :: "string \<Rightarrow> string list \<Rightarrow> int \<Rightarrow> int" where
  "find_option response_lower [] i = -1"
| "find_option response_lower (opt # opts) i =
     (if str_in response_lower (lower opt) \<or> str_in (lower opt) response_lower then i
      else find_option response_lower opts (i + 1))"

definition infer_index :: "string \<Rightarrow> int \<Rightarrow> int \<Rightarrow> int" where
  "infer_index response_lower n option_index =
     (if option_index = -1 then
        (if str_in ''yes'' response_lower \<or> str_in ''comprehensive'' response_lower
            \<or> str_in ''all'' response_lower then 0
         else if str_in ''partial'' response_lower \<or> str_in ''basic'' response_lower
            \<or> str_in ''some'' response_lower then min 1 (n - 1)
         else if str_in ''no'' response_lower \<or> str_in ''never'' response_lower
            \<or> str_in ''none'' response_lower then n - 1
         else option_index)
      else option_index)"

text \<open>
  \<open>interpret_response\<close>; \<open>n\<close> is \<open>len(options)\<close>. The true division raises
  \<open>ZeroDivisionError\<close> when \<open>len(options) - 1\<close> is zero. The quotient, the product and the
  difference are exact here, where the source rounds each to a double.
\<close>

definition interpret_response ::
  "string \<Rightarrow> string \<Rightarrow> string list \<Rightarrow> error + (ComplianceStatus \<times> real)" where
  "interpret_response question response options =
     (let response_lower = strip (lower response);
          n = int (length options);
          option_index = infer_index response_lower n (find_option response_lower options 0)
      in if option_index = 0 then Inr (COMPLIANT, 100)
         else if option_index = n - 1 then Inr (NON_COMPLIANT, 0)
         else if n - 1 = 0 then Inl ZeroDivisionError
         else let sc = 100 - (real_of_int option_index / real_of_int (n - 1)) * 100
              in if sc > 60 then Inr (PARTIAL, sc) else Inr (NON_COMPLIANT, sc))"

section \<open>Scenario catalogs\<close>

text \<open>
  The catalog of the end-to-end scenario: the domain \<open>IAM\<close> with the controls \<open>IAM-01\<close> and
  \<open>IAM-02\<close>, the domain \<open>CR\<close> with the control \<open>CR-01\<close>; and an audit of it in which
  \<open>CR-01\<close> is not applicable and \<open>IAM-02\<close> is compliant.
\<close>

definition scenario_controls :: "Control list" where
  "scenario_controls =
     [\<lparr>ctl_ccf_id = ''IAM-01'', ctl_domain = ''IAM'', ctl_name = ''Provisioning'', ctl_description = []\<rparr>,
      \<lparr>ctl_ccf_id = ''IAM-02'', ctl_domain = ''IAM'', ctl_name = ''Reviews'', ctl_description = []\<rparr>,
      \<lparr>ctl_ccf_id = ''CR-01'', ctl_domain = ''CR'', ctl_name = ''Key management'', ctl_description = []\<rparr>]"

definition scenario_domains :: "(string \<times> string list) list" where
  "scenario_domains = [(''IAM'', [''IAM-01'', ''IAM-02'']), (''CR'', [''CR-01''])]"

definition scenario_auditor :: SecurityAuditor where
  "scenario_auditor =
     snd (session scenario_controls scenario_domains
            [AssessControl ''CR-01'' NOT_APPLICABLE [] None [],
             AssessControl ''IAM-02'' COMPLIANT [] None []])"

text \<open>
  The catalog of the averaging example: the domain \<open>A\<close> with one control, the domain \<open>B\<close>
  with three; and the audit in which the control of \<open>A\<close> is compliant and the three of \<open>B\<close>
  are not.
\<close>

definition asymmetry_controls :: "Control list" where
  "asymmetry_controls =
     [\<lparr>ctl_ccf_id = ''A-01'', ctl_domain = ''A'', ctl_name = ''a1'', ctl_description = []\<rparr>,
      \<lparr>ctl_ccf_id = ''B-01'', ctl_domain = ''B'', ctl_name = ''b1'', ctl_description = []\<rparr>,
      \<lparr>ctl_ccf_id = ''B-02'', ctl_domain = ''B'', ctl_name = ''b2'', ctl_description = []\<rparr>,
      \<lparr>ctl_ccf_id = ''B-03'', ctl_domain = ''B'', ctl_name = ''b3'', ctl_description = []\<rparr>]"

definition asymmetry_domains :: "(string \<times> string list) list" where
  "asymmetry_domains = [(''A'', [''A-01'']), (''B'', [''B-01'', ''B-02'', ''B-03''])]"

definition asymmetry_auditor :: SecurityAuditor where
  "asymmetry_auditor =
     snd (session asymmetry_controls asymmetry_domains
            [AssessControl ''A-01'' COMPLIANT [] None [],
             AssessControl ''B-01'' NON_COMPLIANT [] None [],
             AssessControl ''B-02'' NON_COMPLIANT [] None [],
             AssessControl ''B-03'' NON_COMPLIANT [] None []])"

text \<open>
  The findings that a list of calls appends to the registry, in order; and a finding for the
  examples.
\<close>

primrec added_findings :: "call list \<Rightarrow> Finding list" where
  "added_findings [] = []"
| "added_findings (c # cs) =
     (case c of AddFinding f \<Rightarrow> f # added_findings cs | _ \<Rightarrow> added_findings cs)"

definition example_finding :: Finding where
  "example_finding =
     \<lparr>finding_id = ''F-001'', title = ''No access reviews'', description = ''Reviews are not held'',
      affected_controls = [''IAM-02''], priority = CRITICAL,
      recommendation = ''Hold quarterly access reviews'', risk_impact = ''High'',
      remediation_effort = ''medium''\<rparr>"

text \<open>
  The recommendations section in the words of the specification, to compare the loops of
  \<open>_generate_recommendations_summary\<close> with: after the heading, the four bands Critical, High,
  Medium and Low in this order; a band without findings is left out; a band lists its findings
  in registry order, numbered from 1; an entry of the first three bands is the title and the
  recommendation, an entry of the Low band the title alone; no band takes the Info findings.
\<close>

definition spec_entry_full :: "nat \<times> Finding \<Rightarrow> string" where
  "spec_entry_full e =
     str_nat (fst e) @ ''. '' @ title (snd e) @ NL @ ''   - '' @ recommendation (snd e) @ NL @ NL"

definition spec_entry_title :: "nat \<times> Finding \<Rightarrow> string" where
  "spec_entry_title e = str_nat (fst e) @ ''. '' @ title (snd e) @ NL @ NL"

definition spec_band :: "string \<Rightarrow> (nat \<times> Finding \<Rightarrow> string) \<Rightarrow> Finding list \<Rightarrow> string" where
  "spec_band header entry band =
     (if band = [] then []
      else header @ NL @ concat (map entry (zip [1..<Suc (length band)] band)))"

definition spec_recommendations :: "Finding list \<Rightarrow> string" where
  "spec_recommendations fs =
     ''**Prioritized Recommendations:**'' @ NL @ NL
     @ spec_band ''**CRITICAL PRIORITY (Immediate Action Required):**'' spec_entry_full
         (filter (\<lambda>f. priority f = CRITICAL) fs)
     @ spec_band ''**HIGH PRIORITY (Address within 30 days):**'' spec_entry_full
         (filter (\<lambda>f. priority f = HIGH) fs)
     @ spec_band ''**MEDIUM PRIORITY (Address within 90 days):**'' spec_entry_full
         (filter (\<lambda>f. priority f = MEDIUM) fs)
     @ spec_band ''**LOW PRIORITY (Address within 6 months):**'' spec_entry_title
         (filter (\<lambda>f. priority f = LOW) fs)"

text \<open>Four findings for the examples: one Low, two Critical, one Info.\<close>

definition example_findings :: "Finding list" where
  "example_findings =
     [\<lparr>finding_id = ''F-1'', title = ''Stale accounts'', description = [], affected_controls = [],
        priority = LOW, recommendation = ''Remove them'', risk_impact = [], remediation_effort = []\<rparr>,
      \<lparr>finding_id = ''F-2'', title = ''No MFA'', description = [], affected_controls = [],
        priority = CRITICAL, recommendation = ''Enforce MFA'', risk_impact = [], remediation_effort = []\<rparr>,
      \<lparr>finding_id = ''F-3'', title = ''Old banner'', description = [], affected_controls = [],
        priority = INFO, recommendation = ''Refresh it'', risk_impact = [], remediation_effort = []\<rparr>,
      \<lparr>finding_id = ''F-4'', title = ''Weak keys'', description = [], affected_controls = [],
        priority = CRITICAL, recommendation = ''Rotate keys'', risk_impact = [], remediation_effort = []\<rparr>]"

section \<open>Properties of the assessment store\<close>

lemma lookup_control_None_iff:
  "lookup_control cs cid = None \<longleftrightarrow> cid \<notin> set (map ctl_ccf_id cs)"
  by (induction cs) auto

lemma lookup_control_SomeD:
  "lookup_control cs cid = Some c \<Longrightarrow> c \<in> set cs \<and> ctl_ccf_id c = cid"
  by (induction cs) (auto split: if_splits)

lemma assess_control_present:
  assumes "cid \<in> set (map ctl_ccf_id (controls self))"
  obtains c where "lookup_control (controls self) cid = Some c"
  using assms lookup_control_None_iff [of "controls self" cid] by (cases "lookup_control (controls self) cid") auto

lemma map_of_update_same: "map_of (AList.update k v xs) k = Some v"
  by (simp add: update_conv')

lemma set_update_subset: "set (AList.update k v xs) \<subseteq> insert (k, v) (set xs)"
  by (induction xs) auto

lemma map_of_filter_snd_distinct:
  "distinct (map fst xs) \<Longrightarrow>
   map_of (filter (\<lambda>p. P (snd p)) xs) k =
     (case map_of xs k of None \<Rightarrow> None | Some a \<Rightarrow> if P a then Some a else None)"
proof (induction xs)
  case Nil
  then show ?case by simp
next
  case (Cons x xs)
  obtain k' a' where x: "x = (k', a')" by (cases x)
  from Cons.prems x have notin: "k' \<notin> fst ` set xs" by simp
  have none: "map_of (filter (\<lambda>p. P (snd p)) xs) k' = None"
    using notin by (force simp: map_of_eq_None_iff)
  show ?case
    using Cons x none by (auto split: option.splits)
qed

lemma assessed_in_filter_store:
  "distinct (map fst store) \<Longrightarrow>
   assessed_in (filter (\<lambda>p. status (snd p) \<noteq> NOT_APPLICABLE) store) ids = assessed_in store ids"
proof -
  assume d: "distinct (map fst store)"
  have m: "\<And>k. map_of (filter (\<lambda>p. status (snd p) \<noteq> NOT_APPLICABLE) store) k =
     (case map_of store k of None \<Rightarrow> None
      | Some a \<Rightarrow> if status a \<noteq> NOT_APPLICABLE then Some a else None)"
    using map_of_filter_snd_distinct [OF d, where P = "\<lambda>a. status a \<noteq> NOT_APPLICABLE"] by simp
  show ?thesis
    by (induction ids) (simp_all add: m split: option.splits)
qed

lemma filter_map_snd_filter:
  "filter P (map snd (filter (\<lambda>p. P (snd p)) xs)) = filter P (map snd xs)"
  by (induction xs) auto

lemma overall_score_filter_store:
  "calculate_overall_score
     (self\<lparr>assessments := filter (\<lambda>p. status (snd p) \<noteq> NOT_APPLICABLE) (assessments self)\<rparr>)
   = calculate_overall_score self"
  by (simp add: calculate_overall_score_def
      filter_map_snd_filter [where P = "\<lambda>a. status a \<noteq> NOT_APPLICABLE"])

lemma domain_score_filter_store:
  "distinct (map fst (assessments self)) \<Longrightarrow>
   calculate_domain_score
     (self\<lparr>assessments := filter (\<lambda>p. status (snd p) \<noteq> NOT_APPLICABLE) (assessments self)\<rparr>) d
   = calculate_domain_score self d"
  by (simp add: calculate_domain_score_def domain_control_ids_def assessed_in_filter_store)

lemma assess_control_store:
  "assessments (snd (assess_control self cid st ev gp nt)) = assessments self
   \<or> (\<exists>a. assessments (snd (assess_control self cid st ev gp nt)) = AList.update cid a (assessments self)
          \<and> ccf_id a = cid \<and> status a = st
          \<and> score a = (case score_map st of Some v \<Rightarrow> v | None \<Rightarrow> 0))"
proof (cases "get_control_by_id self cid")
  case None
  then show ?thesis by (simp add: assess_control_def)
next
  case (Some c)
  let ?a = "\<lparr>ccf_id = cid, domain = ctl_domain c, control_name = ctl_name c, status = st,
             evidence = ev, gaps = (case gp of None \<Rightarrow> [] | Some g \<Rightarrow> g),
             assessment_notes = nt, score = (case score_map st of Some v \<Rightarrow> v | None \<Rightarrow> 0)\<rparr>"
  have "assessments (snd (assess_control self cid st ev gp nt)) = AList.update cid ?a (assessments self)"
    using Some by (simp add: assess_control_def Let_def)
  moreover have "ccf_id ?a = cid \<and> status ?a = st
      \<and> score ?a = (case score_map st of Some v \<Rightarrow> v | None \<Rightarrow> 0)"
    by simp
  ultimately show ?thesis by blast
qed

lemma score_map_values: "(case score_map st of Some v \<Rightarrow> v | None \<Rightarrow> 0) \<in> {0, 50, 100}"
  by (cases st) simp_all

lemma call_step_store_inv:
  assumes inv: "distinct (map fst (assessments self))"
      "\<forall>p \<in> set (assessments self). ccf_id (snd p) = fst p \<and> score (snd p) \<in> {0, 50, 100}"
    and step: "call_step (h, self) c = (h', self')"
  shows "distinct (map fst (assessments self'))
       \<and> (\<forall>p \<in> set (assessments self'). ccf_id (snd p) = fst p \<and> score (snd p) \<in> {0, 50, 100})"
proof (cases c)
  case (AssessControl cid st ev gp nt)
  then have s': "self' = snd (assess_control self cid st ev gp nt)"
    using step by simp
  from assess_control_store [of self cid st ev gp nt]
  show ?thesis
  proof
    assume "assessments (snd (assess_control self cid st ev gp nt)) = assessments self"
    then show ?thesis using inv s' by simp
  next
    assume "\<exists>a. assessments (snd (assess_control self cid st ev gp nt)) = AList.update cid a (assessments self)
          \<and> ccf_id a = cid \<and> status a = st
          \<and> score a = (case score_map st of Some v \<Rightarrow> v | None \<Rightarrow> 0)"
    then obtain a where a: "assessments self' = AList.update cid a (assessments self)"
      "ccf_id a = cid" "score a = (case score_map st of Some v \<Rightarrow> v | None \<Rightarrow> 0)"
      using s' by auto
    have d: "distinct (map fst (assessments self'))"
      using inv(1) a(1) by (simp add: distinct_update)
    have "\<And>p. p \<in> set (assessments self') \<Longrightarrow> p = (cid, a) \<or> p \<in> set (assessments self)"
      using set_update_subset [of cid a "assessments self"] a(1) by auto
    then have "\<forall>p \<in> set (assessments self'). ccf_id (snd p) = fst p \<and> score (snd p) \<in> {0, 50, 100}"
      using inv(2) a(2) a(3) score_map_values [of st] by fastforce
    with d show ?thesis by simp
  qed
next
  case (AddFinding f)
  then show ?thesis using inv step by simp
next
  case (SetScope sc)
  then have "assessments self' = assessments self"
    using step by (auto simp: set_scope_def)
  then show ?thesis using inv by simp
qed

lemma session_store_inv:
  "distinct (map fst (assessments (snd (session cs ds calls))))
   \<and> (\<forall>p \<in> set (assessments (snd (session cs ds calls))).
         ccf_id (snd p) = fst p \<and> score (snd p) \<in> {0, 50, 100})"
proof (induction calls rule: rev_induct)
  case Nil
  then show ?case by (simp add: session_def init_auditor_def)
next
  case (snoc c calls)
  obtain h self where hs: "session cs ds calls = (h, self)" by (cases "session cs ds calls")
  obtain h' self' where hs': "call_step (h, self) c = (h', self')" by (cases "call_step (h, self) c")
  have "session cs ds (calls @ [c]) = (h', self')"
    using hs hs' by (simp add: session_def)
  then show ?case
    using call_step_store_inv [OF _ _ hs'] snoc hs by simp
qed

lemma scenario_auditor_eq:
  "scenario_auditor =
     \<lparr>controls = scenario_controls, domains = scenario_domains, scope = None,
      assessments =
        [(''CR-01'', \<lparr>ccf_id = ''CR-01'', domain = ''CR'', control_name = ''Key management'',
            status = NOT_APPLICABLE, evidence = [], gaps = [], assessment_notes = [], score = 0\<rparr>),
         (''IAM-02'', \<lparr>ccf_id = ''IAM-02'', domain = ''IAM'', control_name = ''Reviews'',
            status = COMPLIANT, evidence = [], gaps = [], assessment_notes = [], score = 100\<rparr>)],
      findings = 0\<rparr>"
  by (simp add: scenario_auditor_def session_def init_auditor_def assess_control_def
      get_control_by_id_def scenario_controls_def Let_def)

text \<open>
  C1. For a control identifier of the catalog, \<open>assess_control\<close> succeeds and stores, under
  that identifier, the assessment it returns, whose score is 100 for \<open>COMPLIANT\<close>, 50 for
  \<open>PARTIAL\<close>, 0 for \<open>NON_COMPLIANT\<close> and 0 for \<open>NOT_ASSESSED\<close>. Assessments with the status
  \<open>NOT_APPLICABLE\<close> are outside the averages: deleting all of them from the store changes
  neither \<open>calculate_overall_score\<close> nor any \<open>calculate_domain_score\<close>. The store is a
  dictionary, so its keys are distinct.
\<close>

theorem assess_control_score_table:
  assumes present: "cid \<in> set (map ctl_ccf_id (controls self))"
    and dict: "distinct (map fst (assessments self))"
  shows "(\<exists>a self'. assess_control self cid st ev gp nt = (Inr a, self')
            \<and> map_of (assessments self') cid = Some a
            \<and> status a = st
            \<and> (st = COMPLIANT \<longrightarrow> score a = 100)
            \<and> (st = PARTIAL \<longrightarrow> score a = 50)
            \<and> (st = NON_COMPLIANT \<longrightarrow> score a = 0)
            \<and> (st = NOT_ASSESSED \<longrightarrow> score a = 0))
       \<and> calculate_overall_score
            (self\<lparr>assessments := filter (\<lambda>p. status (snd p) \<noteq> NOT_APPLICABLE) (assessments self)\<rparr>)
          = calculate_overall_score self
       \<and> (\<forall>d. calculate_domain_score
            (self\<lparr>assessments := filter (\<lambda>p. status (snd p) \<noteq> NOT_APPLICABLE) (assessments self)\<rparr>) d
          = calculate_domain_score self d)"
proof -
  obtain c where c: "lookup_control (controls self) cid = Some c"
    using present by (rule assess_control_present)
  have "\<exists>a self'. assess_control self cid st ev gp nt = (Inr a, self')
            \<and> map_of (assessments self') cid = Some a
            \<and> status a = st
            \<and> (st = COMPLIANT \<longrightarrow> score a = 100)
            \<and> (st = PARTIAL \<longrightarrow> score a = 50)
            \<and> (st = NON_COMPLIANT \<longrightarrow> score a = 0)
            \<and> (st = NOT_ASSESSED \<longrightarrow> score a = 0)"
    using c by (simp add: assess_control_def get_control_by_id_def Let_def map_of_update_same)
  then show ?thesis
    using overall_score_filter_store domain_score_filter_store [OF dict] by blast
qed

theorem assess_control_score_table_witness:
  "''IAM-01'' \<in> set (map ctl_ccf_id (controls scenario_auditor))
   \<and> distinct (map fst (assessments scenario_auditor))
   \<and> (\<exists>a self'. assess_control scenario_auditor ''IAM-01'' PARTIAL [] None [] = (Inr a, self')
          \<and> map_of (assessments self') ''IAM-01'' = Some a \<and> score a = 50)
   \<and> calculate_overall_score
        (scenario_auditor\<lparr>assessments :=
           filter (\<lambda>p. status (snd p) \<noteq> NOT_APPLICABLE) (assessments scenario_auditor)\<rparr>)
      = calculate_overall_score scenario_auditor
   \<and> calculate_overall_score scenario_auditor = 100
   \<and> calculate_domain_score scenario_auditor ''CR'' = 0"
proof -
  have p: "''IAM-01'' \<in> set (map ctl_ccf_id (controls scenario_auditor))"
    by (simp add: scenario_auditor_eq scenario_controls_def)
  have d: "distinct (map fst (assessments scenario_auditor))"
    by (simp add: scenario_auditor_eq)
  have o: "calculate_overall_score scenario_auditor = 100"
    by (simp add: scenario_auditor_eq calculate_overall_score_def average_def)
  have c: "calculate_domain_score scenario_auditor ''CR'' = 0"
    by (simp add: scenario_auditor_eq calculate_domain_score_def domain_control_ids_def
        scenario_domains_def average_def)
  show ?thesis
    using assess_control_score_table [OF p d, of PARTIAL "[]" None "[]"] p d o c by auto
qed

text \<open>
  C6. For a control identifier that is not in the catalog, \<open>assess_control\<close> raises
  \<open>ValueError\<close> and leaves the auditor, and with it the store, as it was; for an identifier of
  the catalog the call succeeds and stores the assessment.
\<close>

theorem assess_control_unknown_control:
  "(cid \<notin> set (map ctl_ccf_id (controls self)) \<longrightarrow>
      assess_control self cid st ev gp nt =
        (Inl (ValueError (''Control '' @ cid @ '' not found'')), self))
   \<and> (cid \<in> set (map ctl_ccf_id (controls self)) \<longrightarrow>
      (\<exists>a self'. assess_control self cid st ev gp nt = (Inr a, self')
         \<and> map_of (assessments self') cid = Some a))"
proof (intro conjI impI)
  assume "cid \<notin> set (map ctl_ccf_id (controls self))"
  then have "lookup_control (controls self) cid = None"
    by (simp add: lookup_control_None_iff)
  then show "assess_control self cid st ev gp nt =
        (Inl (ValueError (''Control '' @ cid @ '' not found'')), self)"
    by (simp add: assess_control_def get_control_by_id_def)
next
  assume "cid \<in> set (map ctl_ccf_id (controls self))"
  then obtain c where "lookup_control (controls self) cid = Some c"
    by (rule assess_control_present)
  then show "\<exists>a self'. assess_control self cid st ev gp nt = (Inr a, self')
         \<and> map_of (assessments self') cid = Some a"
    by (simp add: assess_control_def get_control_by_id_def Let_def map_of_update_same)
qed

theorem assess_control_unknown_control_witness:
  "''XX-99'' \<notin> set (map ctl_ccf_id (controls scenario_auditor))
   \<and> assess_control scenario_auditor ''XX-99'' COMPLIANT [] None [] =
        (Inl (ValueError ''Control XX-99 not found''), scenario_auditor)
   \<and> ''IAM-01'' \<in> set (map ctl_ccf_id (controls scenario_auditor))
   \<and> (\<exists>a self'. assess_control scenario_auditor ''IAM-01'' COMPLIANT [] None [] = (Inr a, self')
          \<and> map_of (assessments self') ''IAM-01'' = Some a)"
proof -
  have n: "''XX-99'' \<notin> set (map ctl_ccf_id (controls scenario_auditor))"
    by (simp add: scenario_auditor_eq scenario_controls_def)
  have p: "''IAM-01'' \<in> set (map ctl_ccf_id (controls scenario_auditor))"
    by (simp add: scenario_auditor_eq scenario_controls_def)
  show ?thesis
    using assess_control_unknown_control [of "''XX-99''" scenario_auditor COMPLIANT "[]" None "[]"]
      assess_control_unknown_control [of "''IAM-01''" scenario_auditor COMPLIANT "[]" None "[]"] n p
    by simp
qed

section \<open>Properties of the report\<close>

lemma render_weakest_ok:
  "set ws \<subseteq> fst ` set ds \<Longrightarrow> \<exists>t. render_weakest ds summary ws = Inr t"
proof (induction ws arbitrary: summary)
  case Nil
  then show ?case by simp
next
  case (Cons d ws)
  then have "d \<in> fst ` set ds" by simp
  then obtain v where "map_of ds d = Some v"
    by (cases "map_of ds d") (auto simp: map_of_eq_None_iff)
  then show ?case using Cons by simp
qed

lemma weakest_domains_subset: "set (weakest_domains ds) \<subseteq> fst ` set ds"
proof -
  have "set (take 3 (sort_key snd ds)) \<subseteq> set ds"
    using set_take_subset [of 3 "sort_key snd ds"] by simp
  then show ?thesis
    by (auto simp: weakest_domains_def)
qed

lemma generate_executive_summary_ok:
  "\<exists>t. generate_executive_summary h self overall ds = Inr t"
proof (cases "weakest_domains ds = []")
  case True
  then show ?thesis by (simp add: generate_executive_summary_def Let_def)
next
  case False
  obtain t where "render_weakest ds
       (summary_text h self overall @ NL @ ''**Areas Requiring Immediate Attention:**'' @ NL)
       (weakest_domains ds) = Inr t"
    using render_weakest_ok [OF weakest_domains_subset] by blast
  then show ?thesis using False
    by (simp add: generate_executive_summary_def Let_def)
qed

lemma generate_report_ok:
  "\<exists>r. generate_report now h self = Inr r
     \<and> report_scope r = scope self
     \<and> assessment_date r = now
     \<and> report_assessments r = map snd (assessments self)
     \<and> report_findings r = findings self
     \<and> overall_score r = calculate_overall_score self
     \<and> domain_scores r = map (\<lambda>d. (d, calculate_domain_score self d)) (map fst (domains self))
     \<and> recommendations_summary r = generate_recommendations_summary h self"
proof -
  obtain t where "generate_executive_summary h self (calculate_overall_score self)
      (map (\<lambda>d. (d, calculate_domain_score self d)) (map fst (domains self))) = Inr t"
    using generate_executive_summary_ok by blast
  then show ?thesis
    by (simp add: generate_report_def Let_def del: map_map)
qed

lemma asymmetry_auditor_eq:
  "asymmetry_auditor =
     \<lparr>controls = asymmetry_controls, domains = asymmetry_domains, scope = None,
      assessments =
        [(''A-01'', \<lparr>ccf_id = ''A-01'', domain = ''A'', control_name = ''a1'',
            status = COMPLIANT, evidence = [], gaps = [], assessment_notes = [], score = 100\<rparr>),
         (''B-01'', \<lparr>ccf_id = ''B-01'', domain = ''B'', control_name = ''b1'',
            status = NON_COMPLIANT, evidence = [], gaps = [], assessment_notes = [], score = 0\<rparr>),
         (''B-02'', \<lparr>ccf_id = ''B-02'', domain = ''B'', control_name = ''b2'',
            status = NON_COMPLIANT, evidence = [], gaps = [], assessment_notes = [], score = 0\<rparr>),
         (''B-03'', \<lparr>ccf_id = ''B-03'', domain = ''B'', control_name = ''b3'',
            status = NON_COMPLIANT, evidence = [], gaps = [], assessment_notes = [], score = 0\<rparr>)],
      findings = 0\<rparr>"
  by (simp add: asymmetry_auditor_def session_def init_auditor_def assess_control_def
      get_control_by_id_def asymmetry_controls_def Let_def)

lemma asymmetry_overall: "calculate_overall_score asymmetry_auditor = 25"
  by (simp add: asymmetry_auditor_eq calculate_overall_score_def average_def)

lemma asymmetry_domain_scores:
  "map (\<lambda>d. (d, calculate_domain_score asymmetry_auditor d)) (map fst (domains asymmetry_auditor))
   = [(''A'', 100), (''B'', 0)]"
  by (simp add: asymmetry_auditor_eq calculate_domain_score_def domain_control_ids_def
      asymmetry_domains_def average_def)

text \<open>
  C2. \<open>calculate_overall_score\<close> is the sum of the scores of all assessments of the store whose
  status is not \<open>NOT_APPLICABLE\<close>, divided by their number, whatever their domains. In the
  audit with one control of domain \<open>A\<close> scoring 100 and three of domain \<open>B\<close> scoring 0, the
  report carries the domain scores 100 and 0, whose mean is 50, and the overall score 25.
\<close>

theorem overall_score_is_micro_average:
  "calculate_overall_score self =
     (if filter (\<lambda>a. status a \<noteq> NOT_APPLICABLE) (map snd (assessments self)) = [] then 0
      else sum_list (map score (filter (\<lambda>a. status a \<noteq> NOT_APPLICABLE) (map snd (assessments self))))
           / real (length (filter (\<lambda>a. status a \<noteq> NOT_APPLICABLE) (map snd (assessments self)))))
   \<and> (\<exists>r. generate_report now h asymmetry_auditor = Inr r
          \<and> domain_scores r = [(''A'', 100), (''B'', 0)]
          \<and> sum_list (map snd (domain_scores r)) / real (length (domain_scores r)) = 50
          \<and> overall_score r = 25
          \<and> overall_score r = calculate_overall_score asymmetry_auditor)"
proof -
  obtain r where r: "generate_report now h asymmetry_auditor = Inr r"
      "overall_score r = calculate_overall_score asymmetry_auditor"
      "domain_scores r = map (\<lambda>d. (d, calculate_domain_score asymmetry_auditor d))
                           (map fst (domains asymmetry_auditor))"
    using generate_report_ok [of now h asymmetry_auditor] by blast
  have ds: "domain_scores r = [(''A'', 100), (''B'', 0)]"
    using r(3) by (simp only: asymmetry_domain_scores)
  have "sum_list (map snd (domain_scores r)) / real (length (domain_scores r)) = 50"
    by (simp add: ds)
  then have "\<exists>r. generate_report now h asymmetry_auditor = Inr r
          \<and> domain_scores r = [(''A'', 100), (''B'', 0)]
          \<and> sum_list (map snd (domain_scores r)) / real (length (domain_scores r)) = 50
          \<and> overall_score r = 25
          \<and> overall_score r = calculate_overall_score asymmetry_auditor"
    using r(1) r(2) ds asymmetry_overall by auto
  then show ?thesis
    by (simp add: calculate_overall_score_def average_def)
qed

lemma assess_control_controls:
  "controls (snd (assess_control self cid st ev gp nt)) = controls self"
  by (cases "get_control_by_id self cid") (simp_all add: assess_control_def Let_def)

lemma call_step_controls:
  "controls (snd (call_step (h, self) c)) = controls self"
  by (cases c) (simp_all add: assess_control_controls set_scope_def)

lemma foldl_call_step_controls:
  "controls (snd (foldl call_step (h, self) calls)) = controls self"
proof (induction calls rule: rev_induct)
  case Nil
  then show ?case by simp
next
  case (snoc c calls)
  obtain h' self' where hs: "foldl call_step (h, self) calls = (h', self')"
    by (cases "foldl call_step (h, self) calls")
  then show ?case
    using snoc call_step_controls [of h' self' c] by simp
qed

lemma foldl_call_step_store_inv:
  assumes "distinct (map fst (assessments self))"
      "\<forall>p \<in> set (assessments self). ccf_id (snd p) = fst p \<and> score (snd p) \<in> {0, 50, 100}"
  shows "distinct (map fst (assessments (snd (foldl call_step (h, self) calls))))
   \<and> (\<forall>p \<in> set (assessments (snd (foldl call_step (h, self) calls))).
         ccf_id (snd p) = fst p \<and> score (snd p) \<in> {0, 50, 100})"
proof (induction calls rule: rev_induct)
  case Nil
  then show ?case using assms by simp
next
  case (snoc c calls)
  obtain h1 self1 where hs: "foldl call_step (h, self) calls = (h1, self1)"
    by (cases "foldl call_step (h, self) calls")
  obtain h2 self2 where hs': "call_step (h1, self1) c = (h2, self2)"
    by (cases "call_step (h1, self1) c")
  have "foldl call_step (h, self) (calls @ [c]) = (h2, self2)"
    using hs hs' by simp
  then show ?case
    using call_step_store_inv [OF _ _ hs'] snoc hs by simp
qed

lemma filter_ccf_id_store:
  assumes "distinct (map fst xs)" "\<forall>p \<in> set xs. ccf_id (snd p) = fst p"
  shows "filter (\<lambda>a. ccf_id a = cid) (map snd xs) =
           (case map_of xs cid of None \<Rightarrow> [] | Some a \<Rightarrow> [a])"
  using assms
proof (induction xs)
  case Nil
  then show ?case by simp
next
  case (Cons x xs)
  obtain k a where x: "x = (k, a)" by (cases x)
  show ?case
  proof (cases "k = cid")
    case True
    then have "cid \<notin> fst ` set xs" using Cons.prems x by auto
    then have "filter (\<lambda>a. ccf_id a = cid) (map snd xs) = []"
      using Cons.prems by (auto simp: filter_empty_conv)
    then show ?thesis using True x Cons.prems by simp
  next
    case False
    then show ?thesis using x Cons by simp
  qed
qed

lemma call_step_keeps_other:
  assumes "\<forall>st ev gp nt. c \<noteq> AssessControl cid st ev gp nt"
  shows "map_of (assessments (snd (call_step (h, self) c))) cid = map_of (assessments self) cid"
proof (cases c)
  case (AssessControl cid' st ev gp nt)
  then have ne: "cid' \<noteq> cid" using assms by auto
  from assess_control_store [of self cid' st ev gp nt]
  show ?thesis
  proof
    assume "assessments (snd (assess_control self cid' st ev gp nt)) = assessments self"
    then show ?thesis using AssessControl by simp
  next
    assume "\<exists>a. assessments (snd (assess_control self cid' st ev gp nt)) = AList.update cid' a (assessments self)
          \<and> ccf_id a = cid' \<and> status a = st
          \<and> score a = (case score_map st of Some v \<Rightarrow> v | None \<Rightarrow> 0)"
    then show ?thesis using AssessControl ne by (auto simp: update_conv')
  qed
next
  case (AddFinding f)
  then show ?thesis by simp
next
  case (SetScope sc)
  then show ?thesis by (simp add: set_scope_def)
qed

lemma foldl_call_step_keeps_other:
  assumes "\<forall>st ev gp nt. AssessControl cid st ev gp nt \<notin> set calls"
  shows "map_of (assessments (snd (foldl call_step (h, self) calls))) cid = map_of (assessments self) cid"
  using assms
proof (induction calls rule: rev_induct)
  case Nil
  then show ?case by simp
next
  case (snoc c calls)
  obtain h1 self1 where hs: "foldl call_step (h, self) calls = (h1, self1)"
    by (cases "foldl call_step (h, self) calls")
  have "\<forall>st ev gp nt. c \<noteq> AssessControl cid st ev gp nt"
    using snoc.prems by auto
  then have "map_of (assessments (snd (call_step (h1, self1) c))) cid = map_of (assessments self1) cid"
    by (rule call_step_keeps_other)
  then show ?case using snoc hs by simp
qed


lemma call_step_keys_grow:
  "fst ` set (assessments self) \<subseteq> fst ` set (assessments (snd (call_step (h, self) c)))"
proof (cases c)
  case (AssessControl cid' st ev gp nt)
  from assess_control_store [of self cid' st ev gp nt]
  have "fst ` set (assessments self) \<subseteq> fst ` set (assessments (snd (assess_control self cid' st ev gp nt)))"
  proof
    assume "assessments (snd (assess_control self cid' st ev gp nt)) = assessments self"
    then show ?thesis by simp
  next
    assume "\<exists>a. assessments (snd (assess_control self cid' st ev gp nt)) = AList.update cid' a (assessments self)
          \<and> ccf_id a = cid' \<and> status a = st
          \<and> score a = (case score_map st of Some v \<Rightarrow> v | None \<Rightarrow> 0)"
    then obtain a where e: "assessments (snd (assess_control self cid' st ev gp nt)) = AList.update cid' a (assessments self)"
      by blast
    show ?thesis
      unfolding e dom_update by (rule Un_upper2)
  qed
  then show ?thesis
    using AssessControl by simp
next
  case (AddFinding f)
  then show ?thesis by simp
next
  case (SetScope sc)
  then show ?thesis by (simp add: set_scope_def)
qed


lemma foldl_call_step_keys_grow:
  "fst ` set (assessments self) \<subseteq> fst ` set (assessments (snd (foldl call_step (h, self) calls)))"
proof (induction calls rule: rev_induct)
  case Nil
  then show ?case by simp
next
  case (snoc c calls)
  obtain h1 self1 where hs: "foldl call_step (h, self) calls = (h1, self1)"
    by (cases "foldl call_step (h, self) calls")
  have "fst ` set (assessments self1) \<subseteq> fst ` set (assessments (snd (call_step (h1, self1) c)))"
    by (rule call_step_keys_grow)
  moreover have "fst ` set (assessments self) \<subseteq> fst ` set (assessments self1)"
    using snoc hs by simp
  ultimately show ?case
    using hs by (simp only: foldl_append foldl_Cons foldl_Nil subset_trans)
qed

lemma length_update_present:
  "k \<in> fst ` set xs \<Longrightarrow> length (AList.update k v xs) = length xs"
  by (induction xs) auto

lemma filter_key_distinct:
  "distinct (map fst xs) \<Longrightarrow> map_of xs k = Some v \<Longrightarrow> filter (\<lambda>p. fst p = k) xs = [(k, v)]"
proof (induction xs)
  case Nil
  then show ?case by simp
next
  case (Cons x xs)
  obtain k' a where x: "x = (k', a)" by (cases x)
  show ?case
  proof (cases "k' = k")
    case True
    then have "k \<notin> fst ` set xs" using Cons.prems x by auto
    then have "filter (\<lambda>p. fst p = k) xs = []"
      by (auto simp: filter_empty_conv)
    then show ?thesis using True x Cons.prems by simp
  next
    case False
    then show ?thesis using x Cons by simp
  qed
qed


text \<open>
  C3. In any session, when \<open>assess_control\<close> has recorded an assessment for a control
  identifier and is called again for it, the second call succeeds, the store then holds exactly
  one entry for the identifier, the assessment of the second call, and has grown by none. Every
  report generated after any further calls holds exactly one assessment for the
  identifier; when none of those calls assesses the identifier again, it is the assessment of
  the second call, so the first is in the report only if the two are equal field by field.
\<close>

theorem second_assessment_replaces_first:
  assumes sess: "self = snd (session cs ds calls)"
    and first: "assess_control self cid st1 ev1 gp1 nt1 = (Inr a1, self1)"
    and second: "assess_control self1 cid st2 ev2 gp2 nt2 = (res2, self2)"
    and later: "foldl call_step (h, self2) calls' = (h', self')"
  shows "\<exists>a2 r. res2 = Inr a2
           \<and> filter (\<lambda>p. fst p = cid) (assessments self2) = [(cid, a2)]
           \<and> length (assessments self2) = length (assessments self1)
           \<and> generate_report now h' self' = Inr r
           \<and> length (filter (\<lambda>a. ccf_id a = cid) (report_assessments r)) = 1
           \<and> ((\<forall>st ev gp nt. AssessControl cid st ev gp nt \<notin> set calls') \<longrightarrow>
                 filter (\<lambda>a. ccf_id a = cid) (report_assessments r) = [a2]
                 \<and> (a1 \<in> set (report_assessments r) \<longrightarrow> a1 = a2))"
proof -
  have inv0: "distinct (map fst (assessments self))"
    "\<forall>p \<in> set (assessments self). ccf_id (snd p) = fst p \<and> score (snd p) \<in> {0, 50, 100}"
    using session_store_inv [of cs ds calls] sess by simp_all
  have s1: "self1 = snd (call_step (h, self) (AssessControl cid st1 ev1 gp1 nt1))"
    using first by simp
  have inv1: "distinct (map fst (assessments self1))"
    "\<forall>p \<in> set (assessments self1). ccf_id (snd p) = fst p \<and> score (snd p) \<in> {0, 50, 100}"
    using foldl_call_step_store_inv [OF inv0, of h "[AssessControl cid st1 ev1 gp1 nt1]"] s1 by simp_all
  have s2: "self2 = snd (call_step (h, self1) (AssessControl cid st2 ev2 gp2 nt2))"
    using second by simp
  have inv2: "distinct (map fst (assessments self2))"
    "\<forall>p \<in> set (assessments self2). ccf_id (snd p) = fst p \<and> score (snd p) \<in> {0, 50, 100}"
    using foldl_call_step_store_inv [OF inv1, of h "[AssessControl cid st2 ev2 gp2 nt2]"] s2 by simp_all
  have inv': "distinct (map fst (assessments self'))"
    "\<forall>p \<in> set (assessments self'). ccf_id (snd p) = fst p"
    using foldl_call_step_store_inv [OF inv2, of h calls'] later by simp_all
  obtain c where c: "get_control_by_id self cid = Some c"
    using first by (cases "get_control_by_id self cid") (simp_all add: assess_control_def)
  have k1: "cid \<in> fst ` set (assessments self1)"
    using first c dom_update [of cid _ "assessments self"]
    by (auto simp: assess_control_def Let_def)
  have "controls self1 = controls self"
    using assess_control_controls [of self cid st1 ev1 gp1 nt1] first by simp
  then have c1: "get_control_by_id self1 cid = Some c"
    using c by (simp add: get_control_by_id_def)
  then obtain a2 where a2: "res2 = Inr a2"
    "assessments self2 = AList.update cid a2 (assessments self1)"
    using second by (auto simp: assess_control_def Let_def)
  have m2: "map_of (assessments self2) cid = Some a2"
    using a2(2) by (simp add: map_of_update_same)
  have f2: "filter (\<lambda>p. fst p = cid) (assessments self2) = [(cid, a2)]"
    using filter_key_distinct [OF inv2(1) m2] .
  have l2: "length (assessments self2) = length (assessments self1)"
    using a2(2) length_update_present [OF k1] by simp
  obtain r where r: "generate_report now h' self' = Inr r"
    "report_assessments r = map snd (assessments self')"
    using generate_report_ok [of now h' self'] by blast
  have "cid \<in> fst ` set (assessments self2)"
    using m2 by (metis domI dom_map_of_conv_image_fst)
  then have "cid \<in> fst ` set (assessments self')"
    using foldl_call_step_keys_grow [of self2 h calls'] later by auto
  then obtain a' where a': "map_of (assessments self') cid = Some a'"
    by (cases "map_of (assessments self') cid") (auto simp: map_of_eq_None_iff)
  have fr: "filter (\<lambda>a. ccf_id a = cid) (report_assessments r) = [a']"
    using filter_ccf_id_store [OF inv', of cid] a' r(2) by simp
  have one: "length (filter (\<lambda>a. ccf_id a = cid) (report_assessments r)) = 1"
    by (simp add: fr)
  have keep: "(\<forall>st ev gp nt. AssessControl cid st ev gp nt \<notin> set calls') \<longrightarrow>
                 filter (\<lambda>a. ccf_id a = cid) (report_assessments r) = [a2]
                 \<and> (a1 \<in> set (report_assessments r) \<longrightarrow> a1 = a2)"
  proof (intro impI conjI)
    assume no: "\<forall>st ev gp nt. AssessControl cid st ev gp nt \<notin> set calls'"
    have "map_of (assessments self') cid = map_of (assessments self2) cid"
      using foldl_call_step_keeps_other [OF no, of h self2] later by simp
    then have "a' = a2" using a' m2 by simp
    then show fa: "filter (\<lambda>a. ccf_id a = cid) (report_assessments r) = [a2]"
      using fr by simp
    assume in1: "a1 \<in> set (report_assessments r)"
    have "ccf_id a1 = cid"
      using first c by (auto simp: assess_control_def Let_def)
    then have "a1 \<in> set (filter (\<lambda>a. ccf_id a = cid) (report_assessments r))"
      using in1 by simp
    then show "a1 = a2" by (simp add: fa)
  qed
  show ?thesis
    using a2(1) f2 l2 r(1) one keep by blast
qed


theorem second_assessment_replaces_first_witness:
  "\<exists>a1 self1 a2 self2 h' self' r.
      assess_control scenario_auditor ''IAM-01'' COMPLIANT [] None [] = (Inr a1, self1)
    \<and> assess_control self1 ''IAM-01'' PARTIAL [] None [] = (Inr a2, self2)
    \<and> foldl call_step (init_heap, self2) [AssessControl ''CR-01'' COMPLIANT [] None []] = (h', self')
    \<and> score a1 = 100 \<and> score a2 = 50
    \<and> filter (\<lambda>p. fst p = ''IAM-01'') (assessments self2) = [(''IAM-01'', a2)]
    \<and> generate_report [] h' self' = Inr r
    \<and> filter (\<lambda>a. ccf_id a = ''IAM-01'') (report_assessments r) = [a2]
    \<and> a1 \<notin> set (report_assessments r)"
proof -
  obtain res1 self1 where first0: "assess_control scenario_auditor ''IAM-01'' COMPLIANT [] None [] = (res1, self1)"
    by (cases "assess_control scenario_auditor ''IAM-01'' COMPLIANT [] None []")
  then obtain a1 where a1: "res1 = Inr a1" "score a1 = 100"
    by (auto simp: assess_control_def get_control_by_id_def scenario_auditor_eq scenario_controls_def Let_def)
  have first: "assess_control scenario_auditor ''IAM-01'' COMPLIANT [] None [] = (Inr a1, self1)"
    using first0 a1(1) by simp
  have "controls self1 = scenario_controls"
    using assess_control_controls [of scenario_auditor "''IAM-01''" COMPLIANT "[]" None "[]"] first
    by (simp add: scenario_auditor_eq)
  then have c1: "get_control_by_id self1 ''IAM-01'' =
      Some \<lparr>ctl_ccf_id = ''IAM-01'', ctl_domain = ''IAM'', ctl_name = ''Provisioning'', ctl_description = []\<rparr>"
    by (simp add: get_control_by_id_def scenario_controls_def)
  obtain res2 self2 where second: "assess_control self1 ''IAM-01'' PARTIAL [] None [] = (res2, self2)"
    by (cases "assess_control self1 ''IAM-01'' PARTIAL [] None []")
  obtain h' self' where later:
    "foldl call_step (init_heap, self2) [AssessControl ''CR-01'' COMPLIANT [] None []] = (h', self')"
    by (cases "foldl call_step (init_heap, self2) [AssessControl ''CR-01'' COMPLIANT [] None []]")
  have no: "\<forall>st ev gp nt. AssessControl ''IAM-01'' st ev gp nt \<notin> set [AssessControl ''CR-01'' COMPLIANT [] None []]"
    by simp
  obtain a2 r where res: "res2 = Inr a2"
    "filter (\<lambda>p. fst p = ''IAM-01'') (assessments self2) = [(''IAM-01'', a2)]"
    "generate_report [] h' self' = Inr r"
    "filter (\<lambda>a. ccf_id a = ''IAM-01'') (report_assessments r) = [a2]"
    "a1 \<in> set (report_assessments r) \<longrightarrow> a1 = a2"
    using second_assessment_replaces_first [OF scenario_auditor_def first second later, of "[]"] no
    by blast
  have "score a2 = 50"
    using second res(1) c1 by (auto simp: assess_control_def Let_def)
  moreover from this have "a1 \<noteq> a2" using a1(2) by auto
  ultimately show ?thesis
    using first second later res a1(2) by blast
qed

lemma update_absent: "k \<notin> fst ` set xs \<Longrightarrow> AList.update k v xs = xs @ [(k, v)]"
  by (induction xs) auto

lemma map_of_rescore:
  "map_of (map (\<lambda>p. (fst p, f (snd p))) xs) k = map_option f (map_of xs k)"
  by (induction xs) auto

lemma assessed_in_rescore:
  "assessed_in
     (map (\<lambda>p. (fst p, if status (snd p) = NOT_APPLICABLE then (snd p)\<lparr>score := v\<rparr> else snd p)) store) ids
   = assessed_in store ids"
proof (induction ids)
  case Nil
  then show ?case by simp
next
  case (Cons cid ids)
  have m: "map_of (map (\<lambda>p. (fst p, if status (snd p) = NOT_APPLICABLE then (snd p)\<lparr>score := v\<rparr> else snd p)) store) cid
      = map_option (\<lambda>a. if status a = NOT_APPLICABLE then a\<lparr>score := v\<rparr> else a) (map_of store cid)"
    using map_of_rescore [of "\<lambda>a. if status a = NOT_APPLICABLE then a\<lparr>score := v\<rparr> else a" store cid]
    by simp
  show ?case
    by (cases "map_of store cid") (simp_all add: m Cons)
qed

lemma filter_rescore:
  "filter (\<lambda>a. status a \<noteq> NOT_APPLICABLE)
     (map snd (map (\<lambda>p. (fst p, if status (snd p) = NOT_APPLICABLE then (snd p)\<lparr>score := v\<rparr> else snd p)) xs))
   = filter (\<lambda>a. status a \<noteq> NOT_APPLICABLE) (map snd xs)"
  by (induction xs) auto

lemma overall_score_rescore:
  "calculate_overall_score
     (self\<lparr>assessments :=
        map (\<lambda>p. (fst p, if status (snd p) = NOT_APPLICABLE then (snd p)\<lparr>score := v\<rparr> else snd p))
          (assessments self)\<rparr>)
   = calculate_overall_score self"
  by (simp add: calculate_overall_score_def filter_rescore del: map_map)

lemma domain_score_rescore:
  "calculate_domain_score
     (self\<lparr>assessments :=
        map (\<lambda>p. (fst p, if status (snd p) = NOT_APPLICABLE then (snd p)\<lparr>score := v\<rparr> else snd p))
          (assessments self)\<rparr>) d
   = calculate_domain_score self d"
  by (simp add: calculate_domain_score_def domain_control_ids_def assessed_in_rescore)

lemma assess_control_fresh:
  assumes "cid \<in> set (map ctl_ccf_id (controls self))" "cid \<notin> fst ` set (assessments self)"
  shows "\<exists>a. assess_control self cid st ev gp nt =
               (Inr a, self\<lparr>assessments := assessments self @ [(cid, a)]\<rparr>)
             \<and> status a = st \<and> score a = (case score_map st of Some v \<Rightarrow> v | None \<Rightarrow> 0)"
proof -
  obtain c where "lookup_control (controls self) cid = Some c"
    using assms(1) by (rule assess_control_present)
  then show ?thesis
    using assms(2) by (simp add: assess_control_def get_control_by_id_def Let_def update_absent)
qed

lemma overall_after_not_applicable:
  assumes "cid \<in> set (map ctl_ccf_id (controls self))" "cid \<notin> fst ` set (assessments self)"
  shows "calculate_overall_score (snd (assess_control self cid NOT_APPLICABLE ev gp nt))
         = calculate_overall_score self"
proof -
  obtain a where "assess_control self cid NOT_APPLICABLE ev gp nt =
               (Inr a, self\<lparr>assessments := assessments self @ [(cid, a)]\<rparr>)" "status a = NOT_APPLICABLE"
    using assess_control_fresh [OF assms, of NOT_APPLICABLE ev gp nt] by blast
  then show ?thesis
    by (simp add: calculate_overall_score_def)
qed

lemma overall_after_non_compliant:
  assumes "cid \<in> set (map ctl_ccf_id (controls self))" "cid \<notin> fst ` set (assessments self)"
  shows "calculate_overall_score (snd (assess_control self cid NON_COMPLIANT ev gp nt))
         = sum_list (map score (filter (\<lambda>a. status a \<noteq> NOT_APPLICABLE) (map snd (assessments self))))
           / (real (length (filter (\<lambda>a. status a \<noteq> NOT_APPLICABLE) (map snd (assessments self)))) + 1)"
proof -
  obtain a where "assess_control self cid NON_COMPLIANT ev gp nt =
               (Inr a, self\<lparr>assessments := assessments self @ [(cid, a)]\<rparr>)"
      "status a = NON_COMPLIANT" "score a = 0"
    using assess_control_fresh [OF assms, of NON_COMPLIANT ev gp nt] by auto
  then show ?thesis
    by (simp add: calculate_overall_score_def average_def)
qed

text \<open>
  C10. In any session every assessment of the store has the score 0, 50 or 100. An assessment
  recorded as \<open>NOT_APPLICABLE\<close> is stored with the score 0. The averages select on the status
  and not on the stored score: giving the \<open>NOT_APPLICABLE\<close> assessments any other score changes
  neither \<open>calculate_overall_score\<close> nor any \<open>calculate_domain_score\<close>, and of two new
  assessments that both store the score 0, the \<open>NOT_APPLICABLE\<close> one leaves the overall score as
  it was while the \<open>NON_COMPLIANT\<close> one enters the denominator.
\<close>

theorem stored_scores_and_status_filter:
  assumes sess: "self = snd (session cs ds calls)"
  shows "(\<forall>p \<in> set (assessments self). score (snd p) \<in> {0, 50, 100})
       \<and> (cid \<in> set (map ctl_ccf_id (controls self)) \<longrightarrow>
            (\<exists>a self'. assess_control self cid NOT_APPLICABLE ev gp nt = (Inr a, self')
               \<and> map_of (assessments self') cid = Some a
               \<and> status a = NOT_APPLICABLE \<and> score a = 0))
       \<and> (\<forall>v. calculate_overall_score
              (self\<lparr>assessments :=
                 map (\<lambda>p. (fst p, if status (snd p) = NOT_APPLICABLE then (snd p)\<lparr>score := v\<rparr> else snd p))
                   (assessments self)\<rparr>)
            = calculate_overall_score self)
       \<and> (\<forall>v d. calculate_domain_score
              (self\<lparr>assessments :=
                 map (\<lambda>p. (fst p, if status (snd p) = NOT_APPLICABLE then (snd p)\<lparr>score := v\<rparr> else snd p))
                   (assessments self)\<rparr>) d
            = calculate_domain_score self d)
       \<and> (cid \<in> set (map ctl_ccf_id (controls self)) \<and> cid \<notin> fst ` set (assessments self) \<longrightarrow>
            calculate_overall_score (snd (assess_control self cid NOT_APPLICABLE ev gp nt))
              = calculate_overall_score self
            \<and> calculate_overall_score (snd (assess_control self cid NON_COMPLIANT ev gp nt))
              = sum_list (map score (filter (\<lambda>a. status a \<noteq> NOT_APPLICABLE) (map snd (assessments self))))
                / (real (length (filter (\<lambda>a. status a \<noteq> NOT_APPLICABLE) (map snd (assessments self)))) + 1))"
proof -
  have A: "\<forall>p \<in> set (assessments self). score (snd p) \<in> {0, 50, 100}"
    using session_store_inv [of cs ds calls] sess by simp
  have B: "cid \<in> set (map ctl_ccf_id (controls self)) \<longrightarrow>
            (\<exists>a self'. assess_control self cid NOT_APPLICABLE ev gp nt = (Inr a, self')
               \<and> map_of (assessments self') cid = Some a
               \<and> status a = NOT_APPLICABLE \<and> score a = 0)"
  proof
    assume "cid \<in> set (map ctl_ccf_id (controls self))"
    then obtain c where "lookup_control (controls self) cid = Some c"
      by (rule assess_control_present)
    then show "\<exists>a self'. assess_control self cid NOT_APPLICABLE ev gp nt = (Inr a, self')
               \<and> map_of (assessments self') cid = Some a
               \<and> status a = NOT_APPLICABLE \<and> score a = 0"
      by (simp add: assess_control_def get_control_by_id_def Let_def map_of_update_same)
  qed
  have C: "\<forall>v. calculate_overall_score
              (self\<lparr>assessments :=
                 map (\<lambda>p. (fst p, if status (snd p) = NOT_APPLICABLE then (snd p)\<lparr>score := v\<rparr> else snd p))
                   (assessments self)\<rparr>)
            = calculate_overall_score self"
    by (intro allI) (rule overall_score_rescore)
  have D: "\<forall>v d. calculate_domain_score
              (self\<lparr>assessments :=
                 map (\<lambda>p. (fst p, if status (snd p) = NOT_APPLICABLE then (snd p)\<lparr>score := v\<rparr> else snd p))
                   (assessments self)\<rparr>) d
            = calculate_domain_score self d"
    by (intro allI) (rule domain_score_rescore)
  have E: "cid \<in> set (map ctl_ccf_id (controls self)) \<and> cid \<notin> fst ` set (assessments self) \<longrightarrow>
            calculate_overall_score (snd (assess_control self cid NOT_APPLICABLE ev gp nt))
              = calculate_overall_score self
            \<and> calculate_overall_score (snd (assess_control self cid NON_COMPLIANT ev gp nt))
              = sum_list (map score (filter (\<lambda>a. status a \<noteq> NOT_APPLICABLE) (map snd (assessments self))))
                / (real (length (filter (\<lambda>a. status a \<noteq> NOT_APPLICABLE) (map snd (assessments self)))) + 1)"
  proof (intro impI, elim conjE, intro conjI)
    assume h: "cid \<in> set (map ctl_ccf_id (controls self))" "cid \<notin> fst ` set (assessments self)"
    show "calculate_overall_score (snd (assess_control self cid NOT_APPLICABLE ev gp nt))
              = calculate_overall_score self"
      using h by (rule overall_after_not_applicable)
    show "calculate_overall_score (snd (assess_control self cid NON_COMPLIANT ev gp nt))
              = sum_list (map score (filter (\<lambda>a. status a \<noteq> NOT_APPLICABLE) (map snd (assessments self))))
                / (real (length (filter (\<lambda>a. status a \<noteq> NOT_APPLICABLE) (map snd (assessments self)))) + 1)"
      using h by (rule overall_after_non_compliant)
  qed
  from A B C D E show ?thesis by (intro conjI)
qed

theorem stored_scores_and_status_filter_witness:
  "scenario_auditor = snd (session scenario_controls scenario_domains
            [AssessControl ''CR-01'' NOT_APPLICABLE [] None [],
             AssessControl ''IAM-02'' COMPLIANT [] None []])
   \<and> map (\<lambda>p. score (snd p)) (assessments scenario_auditor) = [0, 100]
   \<and> map (\<lambda>p. status (snd p)) (assessments scenario_auditor) = [NOT_APPLICABLE, COMPLIANT]
   \<and> ''IAM-01'' \<in> set (map ctl_ccf_id (controls scenario_auditor))
   \<and> ''IAM-01'' \<notin> fst ` set (assessments scenario_auditor)
   \<and> calculate_overall_score scenario_auditor = 100
   \<and> calculate_overall_score (snd (assess_control scenario_auditor ''IAM-01'' NOT_APPLICABLE [] None [])) = 100
   \<and> calculate_overall_score (snd (assess_control scenario_auditor ''IAM-01'' NON_COMPLIANT [] None [])) = 50
   \<and> calculate_overall_score
        (scenario_auditor\<lparr>assessments :=
           map (\<lambda>p. (fst p, if status (snd p) = NOT_APPLICABLE then (snd p)\<lparr>score := 100\<rparr> else snd p))
             (assessments scenario_auditor)\<rparr>) = 100"
proof -
  have p: "''IAM-01'' \<in> set (map ctl_ccf_id (controls scenario_auditor))"
    by (simp add: scenario_auditor_eq scenario_controls_def)
  have n: "''IAM-01'' \<notin> fst ` set (assessments scenario_auditor)"
    by (simp add: scenario_auditor_eq)
  have o: "calculate_overall_score scenario_auditor = 100"
    by (simp add: scenario_auditor_eq calculate_overall_score_def average_def)
  have sc: "map (\<lambda>p. score (snd p)) (assessments scenario_auditor) = [0, 100]"
    "map (\<lambda>p. status (snd p)) (assessments scenario_auditor) = [NOT_APPLICABLE, COMPLIANT]"
    by (simp_all add: scenario_auditor_eq)
  have q: "sum_list (map score (filter (\<lambda>a. status a \<noteq> NOT_APPLICABLE) (map snd (assessments scenario_auditor))))
       / (real (length (filter (\<lambda>a. status a \<noteq> NOT_APPLICABLE) (map snd (assessments scenario_auditor)))) + 1) = 50"
    by (simp add: scenario_auditor_eq)
  show ?thesis
    using stored_scores_and_status_filter [OF scenario_auditor_def, of "''IAM-01''" "[]" None "[]"]
      p n o sc q scenario_auditor_def
    by simp
qed

lemma assess_control_findings:
  "findings (snd (assess_control self cid st ev gp nt)) = findings self"
  by (cases "get_control_by_id self cid") (simp_all add: assess_control_def Let_def)

lemma call_step_findings:
  assumes "call_step (h, self) c = (h1, self1)"
  shows "findings self1 = findings self
       \<and> h1 (findings self) = h (findings self) @ added_findings [c]"
proof (cases c)
  case (AssessControl cid st ev gp nt)
  then show ?thesis using assms assess_control_findings [of self cid st ev gp nt] by auto
next
  case (AddFinding f)
  then show ?thesis using assms by (auto simp: add_finding_def)
next
  case (SetScope sc)
  then show ?thesis using assms by (auto simp: set_scope_def)
qed

lemma added_findings_Cons: "added_findings (c # cs) = added_findings [c] @ added_findings cs"
  by (cases c) simp_all

lemma foldl_call_step_findings:
  "foldl call_step (h, self) calls = (h', self') \<Longrightarrow>
   findings self' = findings self \<and> h' (findings self) = h (findings self) @ added_findings calls"
proof (induction calls arbitrary: h self)
  case Nil
  then show ?case by simp
next
  case (Cons c cs)
  obtain h1 self1 where s1: "call_step (h, self) c = (h1, self1)"
    by (cases "call_step (h, self) c")
  have a: "findings self1 = findings self" "h1 (findings self) = h (findings self) @ added_findings [c]"
    using call_step_findings [OF s1] by simp_all
  have "foldl call_step (h1, self1) cs = (h', self')"
    using Cons.prems s1 by simp
  then have b: "findings self' = findings self1"
      "h' (findings self1) = h1 (findings self1) @ added_findings cs"
    using Cons.IH by simp_all
  show ?case
    using a b added_findings_Cons [of c cs] by simp
qed

text \<open>
  C5. A report holds its assessment list and its scores by value, as they were computed from
  the auditor at the time of \<open>generate_report\<close>, and holds the registry's own list of findings.
  After any later calls the finding list read through the report is the one read at generation
  time followed by the findings added since: a later \<open>assess_control\<close> leaves it as it was, a
  later \<open>add_finding\<close> shows in the report already produced.
\<close>

theorem report_after_later_calls:
  assumes rep: "generate_report now h self = Inr r"
    and later: "foldl call_step (h, self) calls = (h', self')"
  shows "report_assessments r = map snd (assessments self)
       \<and> overall_score r = calculate_overall_score self
       \<and> domain_scores r = map (\<lambda>d. (d, calculate_domain_score self d)) (map fst (domains self))
       \<and> report_findings r = findings self'
       \<and> findings_of h' r = findings_of h r @ added_findings calls"
proof -
  obtain r' where r': "generate_report now h self = Inr r'"
     "report_assessments r' = map snd (assessments self)"
     "report_findings r' = findings self"
     "overall_score r' = calculate_overall_score self"
     "domain_scores r' = map (\<lambda>d. (d, calculate_domain_score self d)) (map fst (domains self))"
    using generate_report_ok [of now h self] by blast
  have "r' = r" using rep r'(1) by simp
  then show ?thesis
    using r' foldl_call_step_findings [OF later] by (simp add: findings_of_def)
qed

theorem report_after_later_calls_witness:
  "\<exists>r h' self'. generate_report [] init_heap scenario_auditor = Inr r
     \<and> foldl call_step (init_heap, scenario_auditor)
          [AssessControl ''IAM-02'' PARTIAL [] None [], AddFinding example_finding] = (h', self')
     \<and> map score (report_assessments r) = [0, 100]
     \<and> map (\<lambda>p. score (snd p)) (assessments self') = [0, 50]
     \<and> overall_score r = 100
     \<and> findings_of init_heap r = []
     \<and> findings_of h' r = [example_finding]"
proof -
  obtain r where r: "generate_report [] init_heap scenario_auditor = Inr r"
    "report_findings r = findings scenario_auditor"
    using generate_report_ok [of "[]" init_heap scenario_auditor] by blast
  obtain h' self' where later: "foldl call_step (init_heap, scenario_auditor)
          [AssessControl ''IAM-02'' PARTIAL [] None [], AddFinding example_finding] = (h', self')"
    by (cases "foldl call_step (init_heap, scenario_auditor)
          [AssessControl ''IAM-02'' PARTIAL [] None [], AddFinding example_finding]")
  have o: "calculate_overall_score scenario_auditor = 100"
    by (simp add: scenario_auditor_eq calculate_overall_score_def average_def)
  have f0: "findings_of init_heap r = []"
    by (simp add: findings_of_def init_heap_def)
  have s': "map (\<lambda>p. score (snd p)) (assessments self') = [0, 50]"
    using later
    by (auto simp: scenario_auditor_eq assess_control_def get_control_by_id_def scenario_controls_def Let_def)
  have x: "map score (report_assessments r) = [0, 100] \<and> overall_score r = 100
      \<and> findings_of h' r = [example_finding]"
    using report_after_later_calls [OF r(1) later] o f0
    by (simp add: scenario_auditor_eq)
  show ?thesis
  proof (intro exI conjI)
    show "generate_report [] init_heap scenario_auditor = Inr r" by (rule r(1))
    show "foldl call_step (init_heap, scenario_auditor)
          [AssessControl ''IAM-02'' PARTIAL [] None [], AddFinding example_finding] = (h', self')"
      by (rule later)
    show "map score (report_assessments r) = [0, 100]" using x by simp
    show "map (\<lambda>p. score (snd p)) (assessments self') = [0, 50]" by (rule s')
    show "overall_score r = 100" using x by simp
    show "findings_of init_heap r = []" by (rule f0)
    show "findings_of h' r = [example_finding]" using x by simp
  qed
qed

text \<open>
  The report of the example audit has no findings when it is generated and one after a single
  later \<open>add_finding\<close>.
\<close>

theorem report_findings_shared_counterexample:
  "map_sum id (findings_of init_heap) (generate_report [] init_heap scenario_auditor) = Inr []
   \<and> map_sum id (findings_of (add_finding init_heap scenario_auditor example_finding))
        (generate_report [] init_heap scenario_auditor) = Inr [example_finding]"
proof -
  obtain r where r: "generate_report [] init_heap scenario_auditor = Inr r"
    "report_findings r = findings scenario_auditor"
    using generate_report_ok [of "[]" init_heap scenario_auditor] by blast
  have a: "findings_of init_heap r = []"
    by (simp add: findings_of_def init_heap_def)
  have b: "findings_of (add_finding init_heap scenario_auditor example_finding) r = [example_finding]"
    by (simp add: findings_of_def add_finding_def r(2) init_heap_def)
  show ?thesis
    unfolding r(1) by (simp add: a b)
qed

section \<open>Properties of the response interpretation\<close>

lemma find_option_no_match:
  "\<forall>opt \<in> set opts. \<not> str_in r (lower opt) \<and> \<not> str_in (lower opt) r \<Longrightarrow> find_option r opts i = -1"
  by (induction opts arbitrary: i) simp_all

text \<open>
  C7. For a list of at least two options and a response that, lowered and stripped, neither
  contains nor is contained in any lowered option and contains none of the nine fallback
  keywords, \<open>option_index\<close> stays at \<open>-1\<close> and \<open>interpret_response\<close> returns \<open>PARTIAL\<close> with the
  score \<open>100 - (-1 / (n - 1)) * 100\<close>, which is greater than 100. Such inputs exist: the response
  \<open>Maybe\<close> to a question with two options scores 200.
\<close>

theorem unresolved_response_out_of_range:
  assumes len: "2 \<le> length options"
    and nomatch: "\<forall>opt \<in> set options.
        \<not> str_in (strip (lower response)) (lower opt) \<and> \<not> str_in (lower opt) (strip (lower response))"
    and nokw: "\<forall>kw \<in> set [''yes'', ''comprehensive'', ''all'', ''partial'', ''basic'', ''some'',
                           ''no'', ''never'', ''none'']. \<not> str_in kw (strip (lower response))"
  shows "interpret_response question response options =
           Inr (PARTIAL, 100 - (- 1 / (real (length options) - 1)) * 100)
       \<and> 100 < 100 - (- 1 / (real (length options) - 1)) * 100"
proof -
  let ?r = "strip (lower response)"
  let ?n = "int (length options)"
  have f: "find_option ?r options 0 = -1"
    using nomatch by (rule find_option_no_match)
  have i: "infer_index ?r ?n (-1) = -1"
    using nokw by (simp add: infer_index_def)
  have idx: "infer_index ?r ?n (find_option ?r options 0) = -1"
    by (simp only: f i)
  have pos: "0 < real (length options) - 1"
    using len by simp
  have gt: "100 < 100 - (- 1 / (real (length options) - 1)) * 100"
    using pos by simp
  have c1: "\<not> ((-1::int) = 0)" by simp
  have c2: "\<not> ((-1::int) = ?n - 1)" using len by auto
  have c3: "\<not> (?n - 1 = 0)" using len by auto
  have sc: "100 - real_of_int (- 1) / real_of_int (?n - 1) * 100
            = 100 - (- 1 / (real (length options) - 1)) * 100"
    by simp
  have c4: "60 < 100 - real_of_int (- 1) / real_of_int (?n - 1) * 100"
    unfolding sc using gt by linarith
  have "interpret_response question response options =
           Inr (PARTIAL, 100 - real_of_int (- 1) / real_of_int (?n - 1) * 100)"
    unfolding interpret_response_def Let_def idx
    by (simp only: c1 c2 c3 c4 if_False if_True)
  then show ?thesis
    unfolding sc using gt by (rule conjI)
qed

theorem unresolved_response_out_of_range_witness:
  "2 \<le> length [''Yes, tested regularly'', ''No BCP'']
   \<and> list_all (\<lambda>opt. \<not> str_in (strip (lower ''Maybe'')) (lower opt)
                     \<and> \<not> str_in (lower opt) (strip (lower ''Maybe'')))
        [''Yes, tested regularly'', ''No BCP'']
   \<and> list_all (\<lambda>kw. \<not> str_in kw (strip (lower ''Maybe'')))
        [''yes'', ''comprehensive'', ''all'', ''partial'', ''basic'', ''some'', ''no'', ''never'', ''none'']
   \<and> interpret_response ''Do you have a business continuity plan (BCP)?'' ''Maybe''
        [''Yes, tested regularly'', ''No BCP''] = Inr (PARTIAL, 200)"
proof -
  have r: "strip (lower ''Maybe'') = ''maybe''"
    by code_simp
  have o: "lower ''Yes, tested regularly'' = ''yes, tested regularly''" "lower ''No BCP'' = ''no bcp''"
    by code_simp+
  have a: "\<forall>opt \<in> set [''Yes, tested regularly'', ''No BCP''].
        \<not> str_in (strip (lower ''Maybe'')) (lower opt) \<and> \<not> str_in (lower opt) (strip (lower ''Maybe''))"
    by (simp add: r o)
  have b: "\<forall>kw \<in> set [''yes'', ''comprehensive'', ''all'', ''partial'', ''basic'', ''some'',
                           ''no'', ''never'', ''none'']. \<not> str_in kw (strip (lower ''Maybe''))"
    by (simp add: r)
  have c: "(2::nat) \<le> length [''Yes, tested regularly'', ''No BCP'']"
    by simp
  show ?thesis
    using unresolved_response_out_of_range [OF c a b, of "''Do you have a business continuity plan (BCP)?''"]
      a b
    by (simp add: list_all_iff)
qed

text \<open>
  C4. For three options \<open>[X, Y, Z]\<close> and a response that matches \<open>Y\<close> and not \<open>X\<close>, the search
  loop resolves the index 1 and \<open>interpret_response\<close> returns \<open>NON_COMPLIANT\<close> with the score 50:
  the score 50 is not above the threshold 60 that \<open>PARTIAL\<close> needs.
\<close>

theorem middle_of_three_is_non_compliant:
  assumes notX: "\<not> (str_in (strip (lower response)) (lower X) \<or> str_in (lower X) (strip (lower response)))"
    and isY: "str_in (strip (lower response)) (lower Y) \<or> str_in (lower Y) (strip (lower response))"
  shows "find_option (strip (lower response)) [X, Y, Z] 0 = 1
       \<and> interpret_response question response [X, Y, Z] = Inr (NON_COMPLIANT, 50)"
proof -
  have f: "find_option (strip (lower response)) [X, Y, Z] 0 = 1"
    using notX isY by simp
  then show ?thesis
    by (simp add: interpret_response_def Let_def infer_index_def)
qed

theorem middle_of_three_is_non_compliant_witness:
  "\<not> (str_in (strip (lower ''Partial/Informal'')) (lower ''Yes, comprehensive'')
        \<or> str_in (lower ''Yes, comprehensive'') (strip (lower ''Partial/Informal'')))
   \<and> (str_in (strip (lower ''Partial/Informal'')) (lower ''Partial/Informal'')
        \<or> str_in (lower ''Partial/Informal'') (strip (lower ''Partial/Informal'')))
   \<and> interpret_response ''Do you have a data classification scheme in place?'' ''Partial/Informal''
        [''Yes, comprehensive'', ''Partial/Informal'', ''No classification''] = Inr (NON_COMPLIANT, 50)"
proof -
  have r: "strip ''partial/informal'' = ''partial/informal''"
    by code_simp
  have o: "lower ''Yes, comprehensive'' = ''yes, comprehensive''"
    "lower ''Partial/Informal'' = ''partial/informal''"
    by code_simp+
  have a: "\<not> (str_in (strip (lower ''Partial/Informal'')) (lower ''Yes, comprehensive'')
        \<or> str_in (lower ''Yes, comprehensive'') (strip (lower ''Partial/Informal'')))"
    by (simp add: r o)
  have b: "str_in (strip (lower ''Partial/Informal'')) (lower ''Partial/Informal'')
        \<or> str_in (lower ''Partial/Informal'') (strip (lower ''Partial/Informal''))"
    by (simp add: r o)
  show ?thesis
    using middle_of_three_is_non_compliant [OF a b,
        of "''No classification''" "''Do you have a data classification scheme in place?''"] a b
    by simp
qed

text \<open>
  The answer \<open>Partial/Informal\<close> to the data classification question of \<open>DOMAIN_QUESTIONS\<close>, the
  second of its three options, is classified \<open>NON_COMPLIANT\<close>.
\<close>

theorem middle_of_three_counterexample:
  "find_option (strip (lower ''Partial/Informal''))
     [''Yes, comprehensive'', ''Partial/Informal'', ''No classification''] 0 = 1
   \<and> interpret_response ''Do you have a data classification scheme in place?'' ''Partial/Informal''
        [''Yes, comprehensive'', ''Partial/Informal'', ''No classification''] = Inr (NON_COMPLIANT, 50)"
  by code_simp

section \<open>Properties of the summaries\<close>

lemma sorted_take_drop:
  assumes "sorted (map f xs)"
  shows "\<forall>p \<in> set (take n xs). \<forall>q \<in> set (drop n xs). f p \<le> f q"
proof -
  have "sorted (map f (take n xs) @ map f (drop n xs))"
    using assms by (simp add: map_append [symmetric] del: map_append)
  then show ?thesis
    by (auto simp: sorted_append)
qed

lemma weakest_domains_mem:
  "d \<in> set (weakest_domains ds) \<longleftrightarrow>
     (\<exists>s. (d, s) \<in> set (take 3 (sort_key snd ds)) \<and> s < 60)"
  by (force simp: weakest_domains_def)

lemma take_sort_subset: "set (take n (sort_key f xs)) \<subseteq> set xs"
  using set_take_subset [of n "sort_key f xs"] by simp

text \<open>
  C9. \<open>weakest_domains\<close>, the list that \<open>_generate_executive_summary\<close> renders under its last
  heading, is the names of the first three entries of the domain scores sorted by ascending
  score (a stable sort, so a permutation in which no later entry scores less than one of the
  three), of those three the ones that score below 60. It has at most three names. A domain
  of the dictionary that scores 60 or more is never in it, so one scoring exactly 60 is not;
  one of the three lowest that scores below 60, such as 59.9, is.
\<close>

theorem weakest_domains_boundary:
  assumes dict: "distinct (map fst ds)"
  shows "weakest_domains ds = map fst (filter (\<lambda>p. snd p < 60) (take 3 (sort_key snd ds)))
       \<and> sorted (map snd (sort_key snd ds))
       \<and> set (sort_key snd ds) = set ds \<and> length (sort_key snd ds) = length ds
       \<and> (\<forall>p \<in> set (take 3 (sort_key snd ds)). \<forall>q \<in> set (drop 3 (sort_key snd ds)). snd p \<le> snd q)
       \<and> length (weakest_domains ds) \<le> 3
       \<and> (\<forall>d s. (d, s) \<in> set ds \<and> 60 \<le> s \<longrightarrow> d \<notin> set (weakest_domains ds))
       \<and> (\<forall>d s. (d, s) \<in> set (take 3 (sort_key snd ds)) \<and> s < 60 \<longrightarrow> d \<in> set (weakest_domains ds))"
proof -
  have a: "weakest_domains ds = map fst (filter (\<lambda>p. snd p < 60) (take 3 (sort_key snd ds)))"
    by (simp add: weakest_domains_def)
  have b: "sorted (map snd (sort_key snd ds))"
    by (rule sorted_sort_key)
  have c: "\<forall>p \<in> set (take 3 (sort_key snd ds)). \<forall>q \<in> set (drop 3 (sort_key snd ds)). snd p \<le> snd q"
    using b by (rule sorted_take_drop)
  have "length (filter (\<lambda>p. snd p < 60) (take 3 (sort_key snd ds))) \<le> length (take 3 (sort_key snd ds))"
    by (rule length_filter_le)
  then have d: "length (weakest_domains ds) \<le> 3"
    by (simp add: a)
  have e: "\<forall>d s. (d, s) \<in> set ds \<and> 60 \<le> s \<longrightarrow> d \<notin> set (weakest_domains ds)"
  proof (intro allI impI notI, elim conjE)
    fix d s
    assume m: "(d, s) \<in> set ds" and s: "60 \<le> s" and w: "d \<in> set (weakest_domains ds)"
    from w obtain s' where s': "(d, s') \<in> set (take 3 (sort_key snd ds))" "s' < 60"
      by (auto simp: weakest_domains_mem)
    then have "(d, s') \<in> set ds"
      using take_sort_subset [of 3 snd ds] by auto
    then have "s' = s"
      using eq_key_imp_eq_value [OF dict, of d s' s] m by simp
    then show False using s s'(2) by simp
  qed
  have f: "\<forall>d s. (d, s) \<in> set (take 3 (sort_key snd ds)) \<and> s < 60 \<longrightarrow> d \<in> set (weakest_domains ds)"
    by (auto simp: weakest_domains_mem)
  from a b c d e f show ?thesis by simp
qed

theorem weakest_domains_boundary_witness:
  "distinct (map fst [(''A'', 60), (''B'', 599 / 10), (''C'', 100), (''D'', 0 :: real)])
   \<and> sort_key snd [(''A'', 60), (''B'', 599 / 10), (''C'', 100), (''D'', 0 :: real)]
        = [(''D'', 0), (''B'', 599 / 10), (''A'', 60), (''C'', 100)]
   \<and> weakest_domains [(''A'', 60), (''B'', 599 / 10), (''C'', 100), (''D'', 0)] = [''D'', ''B'']
   \<and> ''A'' \<notin> set (weakest_domains [(''A'', 60), (''B'', 599 / 10), (''C'', 100), (''D'', 0)])
   \<and> ''B'' \<in> set (weakest_domains [(''A'', 60), (''B'', 599 / 10), (''C'', 100), (''D'', 0)])"
proof -
  have d: "distinct (map fst [(''A'', 60), (''B'', 599 / 10), (''C'', 100), (''D'', 0 :: real)])"
    by simp
  have s: "sort_key snd [(''A'', 60), (''B'', 599 / 10), (''C'', 100), (''D'', 0 :: real)]
        = [(''D'', 0), (''B'', 599 / 10), (''A'', 60), (''C'', 100)]"
    by simp
  show ?thesis
    using weakest_domains_boundary [OF d] d s by simp
qed

lemma render_full_eq:
  "render_full i fs summary = summary @ concat (map spec_entry_full (zip [i..<i + length fs] fs))"
proof (induction fs arbitrary: i summary)
  case Nil
  then show ?case by simp
next
  case (Cons f fs)
  have "i < i + length (f # fs)" by simp
  then have "[i..<i + length (f # fs)] = i # [Suc i..<i + length (f # fs)]"
    by (rule upt_conv_Cons)
  then have "[i..<i + length (f # fs)] = i # [Suc i..<Suc i + length fs]"
    by simp
  then show ?case
    by (simp add: Cons spec_entry_full_def)
qed

lemma render_title_only_eq:
  "render_title_only i fs summary = summary @ concat (map spec_entry_title (zip [i..<i + length fs] fs))"
proof (induction fs arbitrary: i summary)
  case Nil
  then show ?case by simp
next
  case (Cons f fs)
  have "i < i + length (f # fs)" by simp
  then have "[i..<i + length (f # fs)] = i # [Suc i..<i + length (f # fs)]"
    by (rule upt_conv_Cons)
  then have "[i..<i + length (f # fs)] = i # [Suc i..<Suc i + length fs]"
    by simp
  then show ?case
    by (simp add: Cons spec_entry_title_def)
qed

lemma band_full_eq:
  "(if band = [] then summary else render_full 1 band (summary @ header @ NL))
   = summary @ spec_band header spec_entry_full band"
  by (simp add: spec_band_def render_full_eq)

lemma band_title_eq:
  "(if band = [] then summary else render_title_only 1 band (summary @ header @ NL))
   = summary @ spec_band header spec_entry_title band"
  by (simp add: spec_band_def render_title_only_eq)

lemma recommendations_text_eq: "recommendations_text fs = spec_recommendations fs"
  unfolding recommendations_text_def Let_def spec_recommendations_def
  by (simp only: band_full_eq band_title_eq) (simp only: append_assoc)

lemma recommendations_text_no_info:
  "recommendations_text (filter (\<lambda>f. priority f \<noteq> INFO) fs) = recommendations_text fs"
proof -
  have "\<And>p. p \<noteq> INFO \<Longrightarrow>
      filter (\<lambda>f. priority f = p) (filter (\<lambda>f. priority f \<noteq> INFO) fs) = filter (\<lambda>f. priority f = p) fs"
    by (induction fs) auto
  then show ?thesis
    by (simp add: recommendations_text_def)
qed

lemma filter_low_relabel:
  "filter (\<lambda>f. priority f = LOW)
     (map (\<lambda>f. if priority f = LOW then f\<lparr>recommendation := x\<rparr> else f) fs)
   = map (\<lambda>f. f\<lparr>recommendation := x\<rparr>) (filter (\<lambda>f. priority f = LOW) fs)"
  by (induction fs) auto

lemma filter_other_relabel:
  "p \<noteq> LOW \<Longrightarrow>
   filter (\<lambda>f. priority f = p)
     (map (\<lambda>f. if priority f = LOW then f\<lparr>recommendation := x\<rparr> else f) fs)
   = filter (\<lambda>f. priority f = p) fs"
  by (induction fs) auto

lemma render_title_only_relabel:
  "render_title_only i (map (\<lambda>f. f\<lparr>recommendation := x\<rparr>) fs) summary = render_title_only i fs summary"
  by (induction fs arbitrary: i summary) simp_all

lemma recommendations_text_low_relabel:
  "recommendations_text (map (\<lambda>f. if priority f = LOW then f\<lparr>recommendation := x\<rparr> else f) fs)
   = recommendations_text fs"
  by (simp add: recommendations_text_def Let_def filter_low_relabel filter_other_relabel
      render_title_only_relabel)

text \<open>
  C8. The text of \<open>_generate_recommendations_summary\<close> is, stripped, the heading followed by the
  bands Critical, High, Medium and Low in this order, each listing its findings in registry
  order, with title and recommendation in the first three and the title alone in the Low band.
  Info findings are not rendered: deleting them from the registry leaves the text as it is.
  The recommendation of a Low finding is not rendered: replacing it by any other text leaves
  the text as it is. The last part is the text for the four example findings.
\<close>

theorem recommendations_bands:
  "generate_recommendations_summary h self = strip (spec_recommendations (h (findings self)))
   \<and> generate_recommendations_summary
        (h(findings self := filter (\<lambda>f. priority f \<noteq> INFO) (h (findings self)))) self
      = generate_recommendations_summary h self
   \<and> generate_recommendations_summary
        (h(findings self :=
             map (\<lambda>f. if priority f = LOW then f\<lparr>recommendation := x\<rparr> else f) (h (findings self)))) self
      = generate_recommendations_summary h self
   \<and> generate_recommendations_summary (init_heap(findings self := example_findings)) self
      = ''**Prioritized Recommendations:**'' @ NL @ NL
        @ ''**CRITICAL PRIORITY (Immediate Action Required):**'' @ NL
        @ ''1. No MFA'' @ NL @ ''   - Enforce MFA'' @ NL @ NL
        @ ''2. Weak keys'' @ NL @ ''   - Rotate keys'' @ NL @ NL
        @ ''**LOW PRIORITY (Address within 6 months):**'' @ NL
        @ ''1. Stale accounts''"
proof -
  have a: "generate_recommendations_summary h self = strip (spec_recommendations (h (findings self)))"
    by (simp add: generate_recommendations_summary_def recommendations_text_eq)
  have b: "generate_recommendations_summary
        (h(findings self := filter (\<lambda>f. priority f \<noteq> INFO) (h (findings self)))) self
      = generate_recommendations_summary h self"
    by (simp add: generate_recommendations_summary_def recommendations_text_no_info)
  have c: "generate_recommendations_summary
        (h(findings self :=
             map (\<lambda>f. if priority f = LOW then f\<lparr>recommendation := x\<rparr> else f) (h (findings self)))) self
      = generate_recommendations_summary h self"
    by (simp add: generate_recommendations_summary_def recommendations_text_low_relabel)
  have e: "strip (recommendations_text example_findings)
      = ''**Prioritized Recommendations:**'' @ NL @ NL
        @ ''**CRITICAL PRIORITY (Immediate Action Required):**'' @ NL
        @ ''1. No MFA'' @ NL @ ''   - Enforce MFA'' @ NL @ NL
        @ ''2. Weak keys'' @ NL @ ''   - Rotate keys'' @ NL @ NL
        @ ''**LOW PRIORITY (Address within 6 months):**'' @ NL
        @ ''1. Stale accounts''"
    by code_simp
  have d: "generate_recommendations_summary (init_heap(findings self := example_findings)) self
      = strip (recommendations_text example_findings)"
    by (simp add: generate_recommendations_summary_def)
  show ?thesis
    using a b c d e by simp
qed

end
